theory Spec2Isabelle
  imports Main "HOL-Library.Word"
begin

unbundle bit_operations_syntax

section \<open>Strings and characters\<close>

text \<open>
  A JavaScript string is a sequence of UTF-16 code units. It is modelled as a list of
  code units, each a natural number, so that the glyphs beyond Latin-1 which the parser
  emits (the replacement glyph U+25AF) are single elements, as they are in the source.
  A one-character string such as the result of \<open>peek()\<close> is a list of length one, and
  the empty string \<open>''\<close> that the scanner returns past the end is the empty list.
\<close>

type_synonym jsstring = "nat list"

abbreviation ch :: "char \<Rightarrow> nat" where
  "ch c \<equiv> of_char c"

definition js :: "string \<Rightarrow> jsstring" where
  "js s = map of_char s"

definition backslash :: nat where
  "backslash = 92"

definition replacement_glyph :: nat where
  "replacement_glyph = 9647"

text \<open>\<open>s.charCodeAt(0) < n\<close> and \<open>s.charCodeAt(0) >= n\<close>: on the empty string
  \<open>charCodeAt\<close> is NaN and both comparisons are false.\<close>

definition charCode_less :: "jsstring \<Rightarrow> nat \<Rightarrow> bool" where
  "charCode_less s n = (case s of [] \<Rightarrow> False | c # _ \<Rightarrow> c < n)"

definition charCode_ge :: "jsstring \<Rightarrow> nat \<Rightarrow> bool" where
  "charCode_ge s n = (case s of [] \<Rightarrow> False | c # _ \<Rightarrow> n \<le> c)"

text \<open>\<open>s.includes(sub)\<close>: \<open>sub\<close> occurs in \<open>s\<close> as a contiguous substring.\<close>

primrec str_includes :: "jsstring \<Rightarrow> jsstring \<Rightarrow> bool" where
  "str_includes [] sub = (sub = [])"
| "str_includes (c # cs) sub = (take (length sub) (c # cs) = sub \<or> str_includes cs sub)"

text \<open>\<open>s.split(sep)\<close> for a one-character separator.\<close>

primrec split_on :: "nat \<Rightarrow> jsstring \<Rightarrow> jsstring \<Rightarrow> jsstring list" where
  "split_on sep [] cur = [cur]"
| "split_on sep (c # cs) cur =
     (if c = sep then cur # split_on sep cs [] else split_on sep cs (cur @ [c]))"

definition startsWith :: "jsstring \<Rightarrow> jsstring \<Rightarrow> bool" where
  "startsWith s p = (take (length p) s = p)"

section \<open>Colour conversion (\<open>rgb2int\<close>, \<open>int2rgb\<close>)\<close>

text \<open>
  The bitwise operators of JavaScript convert their operands to 32-bit integers, work on
  the 32 bits and return a signed 32-bit integer. \<open>ToInt32\<close> is that conversion;
  \<open>>>\<close> is the arithmetic shift \<open>signed_drop_bit\<close>.
\<close>

definition ToInt32 :: "int \<Rightarrow> 32 word" where
  "ToInt32 x = word_of_int x"

definition rgb2int :: "int \<times> int \<times> int \<Rightarrow> int" where
  "rgb2int rgb = (case rgb of (r, g, b) \<Rightarrow>
     sint (push_bit 16 (ToInt32 b) OR push_bit 8 (ToInt32 g) OR ToInt32 r))"

definition int2rgb :: "int \<Rightarrow> int \<times> int \<times> int" where
  "int2rgb v =
     (let r = sint (ToInt32 v AND 0xff);
          g = sint (signed_drop_bit 8 (ToInt32 v) AND 0xff);
          b = sint (signed_drop_bit 16 (ToInt32 v) AND 0xff)
      in (r, g, b))"

section \<open>The cursor: class \<open>TextScanner\<close>\<close>

text \<open>
  The scanner holds the text and the current index; \<open>textLen\<close> is fixed to the length
  of the text by the constructor and is read here as \<open>length (sc_text s)\<close>.
\<close>

record TextScanner =
  sc_text :: jsstring
  sc_index :: nat

definition new_scanner :: "jsstring \<Rightarrow> TextScanner" where
  "new_scanner t = \<lparr>sc_text = t, sc_index = 0\<rparr>"

definition currentIndex :: "TextScanner \<Rightarrow> nat" where
  "currentIndex s = sc_index s"

definition isEmpty :: "TextScanner \<Rightarrow> bool" where
  "isEmpty s = (length (sc_text s) \<le> sc_index s)"

definition hasData :: "TextScanner \<Rightarrow> bool" where
  "hasData s = (sc_index s < length (sc_text s))"

definition get :: "TextScanner \<Rightarrow> jsstring \<times> TextScanner" where
  "get s = (if isEmpty s then ([], s)
            else ([sc_text s ! sc_index s], s\<lparr>sc_index := sc_index s + 1\<rparr>))"

text \<open>\<open>consume(count)\<close> clamps the new index to \<open>[0, textLen]\<close>; a negative count rewinds.\<close>

definition consume :: "int \<Rightarrow> TextScanner \<Rightarrow> TextScanner" where
  "consume count s =
     s\<lparr>sc_index := nat (max 0 (min (int (sc_index s) + count) (int (length (sc_text s)))))\<rparr>"

definition peek :: "TextScanner \<Rightarrow> int \<Rightarrow> jsstring" where
  "peek s offset =
     (let i = int (sc_index s) + offset
      in if int (length (sc_text s)) \<le> i \<or> i < 0 then [] else [sc_text s ! nat i])"

text \<open>
  \<open>find(char, escape)\<close>: the loop over \<open>index\<close>, started at the current index. The
  target is one code unit (the parser only ever searches for the semicolon). The result
  is the index found, or \<open>-1\<close>.
\<close>

function find_from :: "jsstring \<Rightarrow> nat \<Rightarrow> bool \<Rightarrow> nat \<Rightarrow> int" where
  "find_from t c escape i =
     (if i < length t then
        (if escape \<and> t ! i = backslash then
           (if i + 1 < length t then
              (if t ! (i + 1) = c then int (i + 1)
               else find_from t c escape (i + 2))
            else find_from t c escape (i + 1))
         else if t ! i = c then int i
         else find_from t c escape (i + 1))
      else - 1)"
  by pat_completeness auto
termination
  by (relation "measure (\<lambda>(t, c, escape, i). length t - i)") auto

declare find_from.simps [simp del]

definition find_char :: "TextScanner \<Rightarrow> nat \<Rightarrow> bool \<Rightarrow> int" where
  "find_char s c escape = find_from (sc_text s) c escape (sc_index s)"

definition tail :: "TextScanner \<Rightarrow> jsstring" where
  "tail s = drop (sc_index s) (sc_text s)"

text \<open>\<open>s.slice(a, b)\<close> for non-negative \<open>a\<close> and \<open>b\<close>.\<close>

definition slice :: "jsstring \<Rightarrow> nat \<Rightarrow> nat \<Rightarrow> jsstring" where
  "slice s a b = take (b - a) (drop a s)"

section \<open>The formatting context: class \<open>MTextContext\<close>\<close>

text \<open>
  Numbers. The scale factors, the oblique angle and the paragraph measures are IEEE
  doubles that the parser obtains from \<open>parseFloat\<close> and \<open>Math.abs\<close>. No claim
  verified here depends on their numeric value, so a number is kept as the expression
  that computes it: an integer constant of the source, \<open>parseFloat\<close> of a matched
  literal, or \<open>Math.abs\<close> of a number. \<open>isNaN\<close> is decided on that expression:
  \<open>parseFloat\<close> is NaN exactly when its argument does not begin with a decimal
  literal (the parser never passes leading white space or the word Infinity, which
  \<open>parseFloat\<close> would also accept).
\<close>

datatype number = Num int | ParseFloat jsstring | Abs number

definition isDigit :: "nat \<Rightarrow> bool" where
  "isDigit c = (48 \<le> c \<and> c \<le> 57)"

definition begins_decimal :: "jsstring \<Rightarrow> bool" where
  "begins_decimal s =
     (let u = (case s of [] \<Rightarrow> [] | c # r \<Rightarrow> if c = ch CHR ''+'' \<or> c = ch CHR ''-'' then r else s)
      in case u of
           [] \<Rightarrow> False
         | c # r \<Rightarrow> isDigit c \<or> (c = ch CHR ''.'' \<and> (case r of [] \<Rightarrow> False | d # _ \<Rightarrow> isDigit d)))"

primrec isNaN :: "number \<Rightarrow> bool" where
  "isNaN (Num n) = False"
| "isNaN (ParseFloat s) = (\<not> begins_decimal s)"
| "isNaN (Abs x) = isNaN x"

datatype MTextLineAlignment = BOTTOM | MIDDLE | TOP | ALIGN_NaN

datatype MTextParagraphAlignment = DEFAULT | LEFT | RIGHT | CENTER | JUSTIFIED | DISTRIBUTED

record FactorValue =
  fv_value :: number
  isRelative :: bool

record FontFace =
  family :: jsstring
  style :: jsstring
  weight :: int

text \<open>A tab stop is a number, or the string \<open>type + value.toString()\<close>, kept as the
  type character and the number.\<close>

datatype tab_stop = TabNumber number | TabString nat number

record ParagraphProperties =
  indent :: number
  left :: number
  right :: number
  par_align :: MTextParagraphAlignment
  tab_stops :: "tab_stop list"

text \<open>
  The fields of \<open>MTextContext\<close>, with the private \<open>_stroke\<close>, \<open>_aci\<close>, \<open>_capHeight\<close>,
  \<open>_widthFactor\<close> and \<open>_charTrackingFactor\<close> under the names of their accessors. The
  indexed colour is a number with no null value; \<open>rgb\<close> is a triple or null.
\<close>

record MTextContext =
  stroke :: int
  continueStroke :: bool
  aci :: int
  rgb :: "(int \<times> int \<times> int) option"
  align :: MTextLineAlignment
  fontFace :: FontFace
  capHeight :: FactorValue
  widthFactor :: FactorValue
  charTrackingFactor :: FactorValue
  oblique :: number
  ctx_paragraph :: ParagraphProperties

definition new_MTextContext :: MTextContext where
  "new_MTextContext =
     \<lparr>stroke = 0, continueStroke = False, aci = 7, rgb = None, align = BOTTOM,
      fontFace = \<lparr>family = [], style = js ''Regular'', weight = 400\<rparr>,
      capHeight = \<lparr>fv_value = Num 1, isRelative = False\<rparr>,
      widthFactor = \<lparr>fv_value = Num 1, isRelative = False\<rparr>,
      charTrackingFactor = \<lparr>fv_value = Num 1, isRelative = False\<rparr>,
      oblique = Num 0,
      ctx_paragraph = \<lparr>indent = Num 0, left = Num 0, right = Num 0, par_align = DEFAULT,
                        tab_stops = []\<rparr>\<rparr>"

text \<open>The two errors the source throws: \<open>new Error('ACI not in range [0, 256]')\<close> in
  the setter of \<open>aci\<close>, and \<open>new Error(`Unknown command: ${cmd}`)\<close> in
  \<open>parseProperties\<close>.\<close>

datatype error = AciNotInRange | UnknownCommand jsstring

text \<open>
  A setter returns the context after the call and the error it threw, if any: the
  context of a throwing call is the one the object is left in.
\<close>

definition set_capHeight :: "FactorValue \<Rightarrow> MTextContext \<Rightarrow> error option \<times> MTextContext" where
  "set_capHeight v c =
     (None, c\<lparr>capHeight := \<lparr>fv_value = Abs (fv_value v), isRelative = isRelative v\<rparr>\<rparr>)"

definition set_widthFactor :: "FactorValue \<Rightarrow> MTextContext \<Rightarrow> error option \<times> MTextContext" where
  "set_widthFactor v c =
     (None, c\<lparr>widthFactor := \<lparr>fv_value = Abs (fv_value v), isRelative = isRelative v\<rparr>\<rparr>)"

definition set_charTrackingFactor ::
    "FactorValue \<Rightarrow> MTextContext \<Rightarrow> error option \<times> MTextContext" where
  "set_charTrackingFactor v c =
     (None, c\<lparr>charTrackingFactor := \<lparr>fv_value = Abs (fv_value v), isRelative = isRelative v\<rparr>\<rparr>)"

definition set_aci :: "int \<Rightarrow> MTextContext \<Rightarrow> error option \<times> MTextContext" where
  "set_aci v c =
     (if 0 \<le> v \<and> v \<le> 256 then (None, c\<lparr>aci := v, rgb := None\<rparr>)
      else (Some AciNotInRange, c))"

definition UNDERLINE :: int where "UNDERLINE = 1"
definition OVERLINE :: int where "OVERLINE = 2"
definition STRIKE_THROUGH :: int where "STRIKE_THROUGH = 4"

definition setStrokeState :: "int \<Rightarrow> bool \<Rightarrow> MTextContext \<Rightarrow> MTextContext" where
  "setStrokeState s state c =
     (if state then c\<lparr>stroke := stroke c OR s\<rparr> else c\<lparr>stroke := stroke c AND NOT s\<rparr>)"

definition underline :: "MTextContext \<Rightarrow> bool" where
  "underline c = (stroke c AND UNDERLINE \<noteq> 0)"

definition strikeThrough :: "MTextContext \<Rightarrow> bool" where
  "strikeThrough c = (stroke c AND STRIKE_THROUGH \<noteq> 0)"

definition overline :: "MTextContext \<Rightarrow> bool" where
  "overline c = (stroke c AND OVERLINE \<noteq> 0)"

definition hasAnyStroke :: "MTextContext \<Rightarrow> bool" where
  "hasAnyStroke c = (stroke c \<noteq> 0)"

definition set_underline :: "bool \<Rightarrow> MTextContext \<Rightarrow> error option \<times> MTextContext" where
  "set_underline v c = (None, setStrokeState UNDERLINE v c)"

definition set_strikeThrough :: "bool \<Rightarrow> MTextContext \<Rightarrow> error option \<times> MTextContext" where
  "set_strikeThrough v c = (None, setStrokeState STRIKE_THROUGH v c)"

definition set_overline :: "bool \<Rightarrow> MTextContext \<Rightarrow> error option \<times> MTextContext" where
  "set_overline v c = (None, setStrokeState OVERLINE v c)"

text \<open>
  \<open>copy()\<close> on context values: each field is read and written to the new object. (What
  the two objects share in memory is the subject of the store model further down.)
\<close>

definition copy :: "MTextContext \<Rightarrow> MTextContext" where
  "copy c =
     \<lparr>stroke = stroke c, continueStroke = continueStroke c, aci = aci c, rgb = rgb c,
      align = align c,
      fontFace = \<lparr>family = family (fontFace c), style = style (fontFace c),
                  weight = weight (fontFace c)\<rparr>,
      capHeight = \<lparr>fv_value = fv_value (capHeight c), isRelative = isRelative (capHeight c)\<rparr>,
      widthFactor = \<lparr>fv_value = fv_value (widthFactor c), isRelative = isRelative (widthFactor c)\<rparr>,
      charTrackingFactor = \<lparr>fv_value = fv_value (charTrackingFactor c),
                            isRelative = isRelative (charTrackingFactor c)\<rparr>,
      oblique = oblique c,
      ctx_paragraph = \<lparr>indent = indent (ctx_paragraph c), left = left (ctx_paragraph c),
                        right = right (ctx_paragraph c), par_align = par_align (ctx_paragraph c),
                        tab_stops = tab_stops (ctx_paragraph c)\<rparr>\<rparr>"

text \<open>
  The operations of the state model: the setters of the class, the assignments to its
  public fields, and \<open>copy()\<close>.
\<close>

datatype ctx_op =
    SetCapHeight FactorValue
  | SetWidthFactor FactorValue
  | SetCharTrackingFactor FactorValue
  | SetAci int
  | SetUnderline bool
  | SetStrikeThrough bool
  | SetOverline bool
  | AssignContinueStroke bool
  | AssignRgb "(int \<times> int \<times> int) option"
  | AssignAlign MTextLineAlignment
  | AssignFontFace FontFace
  | AssignOblique number
  | AssignParagraph ParagraphProperties
  | Copy

fun ctx_apply :: "ctx_op \<Rightarrow> MTextContext \<Rightarrow> error option \<times> MTextContext" where
  "ctx_apply (SetCapHeight v) c = set_capHeight v c"
| "ctx_apply (SetWidthFactor v) c = set_widthFactor v c"
| "ctx_apply (SetCharTrackingFactor v) c = set_charTrackingFactor v c"
| "ctx_apply (SetAci v) c = set_aci v c"
| "ctx_apply (SetUnderline v) c = set_underline v c"
| "ctx_apply (SetStrikeThrough v) c = set_strikeThrough v c"
| "ctx_apply (SetOverline v) c = set_overline v c"
| "ctx_apply (AssignContinueStroke v) c = (None, c\<lparr>continueStroke := v\<rparr>)"
| "ctx_apply (AssignRgb v) c = (None, c\<lparr>rgb := v\<rparr>)"
| "ctx_apply (AssignAlign v) c = (None, c\<lparr>align := v\<rparr>)"
| "ctx_apply (AssignFontFace v) c = (None, c\<lparr>fontFace := v\<rparr>)"
| "ctx_apply (AssignOblique v) c = (None, c\<lparr>oblique := v\<rparr>)"
| "ctx_apply (AssignParagraph v) c = (None, c\<lparr>ctx_paragraph := v\<rparr>)"
| "ctx_apply Copy c = (None, copy c)"

section \<open>The patterns of the parser's regular expressions\<close>

text \<open>
  Each pattern is anchored at the start of the remaining text and is matched greedily;
  since every part after the mantissa is optional, the first match JavaScript finds is
  the one computed here. \<open>\d\<close> is an ASCII digit.
\<close>

definition digits_prefix :: "jsstring \<Rightarrow> jsstring" where
  "digits_prefix s = takeWhile isDigit s"

definition sign_prefix :: "jsstring \<Rightarrow> jsstring" where
  "sign_prefix s =
     (case s of [] \<Rightarrow> [] | c # _ \<Rightarrow> if c = ch CHR ''+'' \<or> c = ch CHR ''-'' then [c] else [])"

definition exponent_prefix :: "jsstring \<Rightarrow> jsstring" where
  "exponent_prefix s =
     (case s of
        [] \<Rightarrow> []
      | c # r \<Rightarrow>
          if c = ch CHR ''e'' \<or> c = ch CHR ''E'' then
            (let sg = sign_prefix r; ds = digits_prefix (drop (length sg) r)
             in if ds = [] then [] else c # sg @ ds)
          else [])"

definition fraction_suffix :: "jsstring \<Rightarrow> jsstring" where
  "fraction_suffix s =
     (case s of [] \<Rightarrow> [] | c # r \<Rightarrow> if c = ch CHR ''.'' then c # digits_prefix r else [])"

definition float_pattern :: "bool \<Rightarrow> jsstring \<Rightarrow> jsstring option" where
  "float_pattern relative s =
     (let sg = sign_prefix s;
          r0 = drop (length sg) s;
          ds = digits_prefix r0;
          mantissa =
            (if ds \<noteq> [] then Some (ds @ fraction_suffix (drop (length ds) r0))
             else (case r0 of
                     [] \<Rightarrow> None
                   | c # r1 \<Rightarrow>
                       if c = ch CHR ''.'' \<and> digits_prefix r1 \<noteq> []
                       then Some (c # digits_prefix r1) else None))
      in case mantissa of
           None \<Rightarrow> None
         | Some m \<Rightarrow>
             (let r2 = drop (length m) r0;
                  ex = exponent_prefix r2;
                  r3 = drop (length ex) r2;
                  x = (if relative \<and> take 1 r3 = js ''x'' then js ''x'' else [])
              in Some (sg @ m @ ex @ x)))"

definition paragraph_float_pattern :: "jsstring \<Rightarrow> jsstring option" where
  "paragraph_float_pattern s =
     (let sg = sign_prefix s;
          r0 = drop (length sg) s;
          ds = digits_prefix r0
      in if ds = [] then None
         else (let m = ds @ fraction_suffix (drop (length ds) r0);
                   ex = exponent_prefix (drop (length m) r0)
               in Some (sg @ m @ ex)))"

definition isHexDigit :: "nat \<Rightarrow> bool" where
  "isHexDigit c = (isDigit c \<or> (65 \<le> c \<and> c \<le> 70) \<or> (97 \<le> c \<and> c \<le> 102))"

definition hex4_pattern :: "jsstring \<Rightarrow> jsstring option" where
  "hex4_pattern s =
     (if 4 \<le> length s \<and> list_all isHexDigit (take 4 s) then Some (take 4 s) else None)"

definition parseInt :: "jsstring \<Rightarrow> int" where
  "parseInt ds = foldl (\<lambda>a c. 10 * a + (int c - 48)) 0 ds"

definition endsWith_x :: "jsstring \<Rightarrow> bool" where
  "endsWith_x s = (s \<noteq> [] \<and> last s = ch CHR ''x'')"


section \<open>The tokenizer: class \<open>MTextParser\<close>\<close>

text \<open>
  The parser's fields. It is modelled for \<open>yieldPropertyCommands = false\<close>, the
  default of the constructor: \<open>lastCtx\<close> and \<open>getPropertyChanges\<close>, which compare
  floating-point fields to build \<open>PROPERTIES_CHANGED\<close> tokens, are read only when the flag
  is set and are left out.
\<close>

record MTextParser =
  scanner :: TextScanner
  ctx :: MTextContext
  ctxStack :: "MTextContext list"
  parser_continueStroke :: bool
  inStackContext :: bool

definition new_MTextParser :: "jsstring \<Rightarrow> MTextContext \<Rightarrow> MTextParser" where
  "new_MTextParser content c =
     \<lparr>scanner = new_scanner content, ctx = c, ctxStack = [],
      parser_continueStroke = False, inStackContext = False\<rparr>"

definition pushCtx :: "MTextParser \<Rightarrow> MTextParser" where
  "pushCtx p = p\<lparr>ctxStack := ctxStack p @ [ctx p]\<rparr>"

definition popCtx :: "MTextParser \<Rightarrow> MTextParser" where
  "popCtx p =
     (if ctxStack p \<noteq> [] then p\<lparr>ctx := last (ctxStack p), ctxStack := butlast (ctxStack p)\<rparr>
      else p)"

subsection \<open>Extracting expressions from the scanner\<close>

definition extractFloatExpression :: "bool \<Rightarrow> TextScanner \<Rightarrow> jsstring \<times> TextScanner" where
  "extractFloatExpression relative sc =
     (case float_pattern relative (tail sc) of
        Some result \<Rightarrow> (result, consume (int (length result)) sc)
      | None \<Rightarrow> ([], sc))"

definition extractIntExpression :: "TextScanner \<Rightarrow> jsstring \<times> TextScanner" where
  "extractIntExpression sc =
     (let result = digits_prefix (tail sc)
      in if result \<noteq> [] then (result, consume (int (length result)) sc) else ([], sc))"

definition extractExpression :: "bool \<Rightarrow> TextScanner \<Rightarrow> jsstring \<times> TextScanner" where
  "extractExpression escape sc =
     (let stop = find_char sc (ch CHR '';'') escape
      in if stop < 0 then
           (let expr = tail sc in (expr, consume (int (length expr)) sc))
         else
           (let prevChar = peek sc (stop - int (currentIndex sc) - 1);
                isEscaped = (prevChar = [backslash]);
                expr = slice (tail sc) 0
                         (nat (stop - int (currentIndex sc)) + (if isEscaped then 1 else 0))
            in (expr, consume (int (length expr) + 1) sc)))"

definition consumeOptionalTerminator :: "TextScanner \<Rightarrow> TextScanner" where
  "consumeOptionalTerminator sc = (if peek sc 0 = js '';'' then consume 1 sc else sc)"

subsection \<open>The stacking sub-grammar: \<open>parseStacking\<close>\<close>

definition getNextChar :: "TextScanner \<Rightarrow> (jsstring \<times> bool) \<times> TextScanner" where
  "getNextChar sc =
     (let c0 = peek sc 0;
          c1 = (if charCode_less c0 32 then js '' '' else c0)
      in if c1 = [backslash] then
           (let sc1 = consume 1 sc; c2 = peek sc1 0 in ((c2, True), consume 1 sc1))
         else ((c1, False), consume 1 sc))"

function parseNumerator :: "TextScanner \<Rightarrow> jsstring \<Rightarrow> (jsstring \<times> jsstring) \<times> TextScanner" where
  "parseNumerator sc word =
     (if hasData sc then
        (let r = getNextChar sc; c = fst (fst r); escape = snd (fst r)
         in if \<not> escape \<and> (c = js ''/'' \<or> c = js ''#'' \<or> c = js ''^'') then ((word, c), snd r)
            else parseNumerator (snd r) (word @ c))
      else ((word, []), sc))"
  by pat_completeness auto
termination
  by (relation "measure (\<lambda>(sc, word). length (sc_text sc) - sc_index sc)")
     (auto simp: getNextChar_def hasData_def consume_def peek_def Let_def split: if_splits)

declare parseNumerator.simps [simp del]

function parseDenominator :: "TextScanner \<Rightarrow> bool \<Rightarrow> jsstring \<Rightarrow> jsstring \<times> TextScanner" where
  "parseDenominator sc skipping word =
     (if hasData sc then
        (let r = getNextChar sc; c = fst (fst r); escape = snd (fst r)
         in if skipping \<and> c = js '' '' then parseDenominator (snd r) skipping word
            else if \<not> escape \<and> c = js '';'' then (word, snd r)
            else parseDenominator (snd r) False (word @ c))
      else (word, sc))"
  by pat_completeness auto
termination
  by (relation "measure (\<lambda>(sc, skipping, word). length (sc_text sc) - sc_index sc)")
     (auto simp: getNextChar_def hasData_def consume_def peek_def Let_def split: if_splits)

declare parseDenominator.simps [simp del]

text \<open>A token type together with its data. \<open>PROPERTIES_CHANGED\<close> is only produced
  when \<open>yieldPropertyCommands\<close> is set and has no constructor here.\<close>

datatype token =
    NONE
  | WORD jsstring
  | STACK jsstring jsstring jsstring
  | SPACE
  | NBSP
  | TABULATOR
  | NEW_PARAGRAPH
  | NEW_COLUMN
  | WRAP_AT_DIMLINE

text \<open>The numerator, the divider and the denominator that \<open>parseStacking\<close> reads from
  the extracted expression, and the token it builds from them.\<close>

definition stack_numerator :: "jsstring \<Rightarrow> jsstring" where
  "stack_numerator expr = fst (fst (parseNumerator (new_scanner expr) []))"

definition stack_type :: "jsstring \<Rightarrow> jsstring" where
  "stack_type expr = snd (fst (parseNumerator (new_scanner expr) []))"

definition stack_denominator :: "jsstring \<Rightarrow> jsstring" where
  "stack_denominator expr =
     (if stack_type expr \<noteq> [] then
        fst (parseDenominator (snd (parseNumerator (new_scanner expr) []))
               (stack_type expr = js ''^'') [])
      else [])"

definition stack_token :: "jsstring \<Rightarrow> token" where
  "stack_token expr =
     (let numerator = stack_numerator expr;
          stackingType = stack_type expr;
          denominator = stack_denominator expr
      in if numerator = [] \<and> str_includes denominator (js ''I/'') then
           STACK (js '' '') (js '' '') (js ''/'')
         else if stackingType = js ''^'' then STACK numerator denominator (js ''^'')
         else STACK numerator denominator stackingType)"

definition parseStacking :: "TextScanner \<Rightarrow> token \<times> TextScanner" where
  "parseStacking sc = (let r = extractExpression True sc in (stack_token (fst r), snd r))"


subsection \<open>The property sub-parsers\<close>

definition align_of_parseInt :: "jsstring \<Rightarrow> MTextLineAlignment" where
  "align_of_parseInt char =
     (if char = js ''0'' then BOTTOM else if char = js ''1'' then MIDDLE
      else if char = js ''2'' then TOP else ALIGN_NaN)"

definition parseAlign :: "MTextContext \<Rightarrow> TextScanner \<Rightarrow> MTextContext \<times> TextScanner" where
  "parseAlign c sc =
     (let r = get sc; char = fst r;
          c' = (if str_includes (js ''012'') char then c\<lparr>align := align_of_parseInt char\<rparr>
                else c\<lparr>align := BOTTOM\<rparr>)
      in (c', consumeOptionalTerminator (snd r)))"

text \<open>
  \<open>parseHeight\<close>, \<open>parseWidth\<close> and \<open>parseCharTracking\<close> wrap the assignment in
  \<open>try\<close>; neither \<open>parseFloat\<close> nor the setter throws, so the \<open>catch\<close> block, which
  rewinds the scanner, has no branch here.
\<close>

definition factor_of_expr :: "jsstring \<Rightarrow> FactorValue" where
  "factor_of_expr expr =
     (if endsWith_x expr then \<lparr>fv_value = ParseFloat (butlast expr), isRelative = True\<rparr>
      else \<lparr>fv_value = ParseFloat expr, isRelative = False\<rparr>)"

definition parseHeight :: "MTextContext \<Rightarrow> TextScanner \<Rightarrow> MTextContext \<times> TextScanner" where
  "parseHeight c sc =
     (let r = extractFloatExpression True sc; expr = fst r;
          c' = (if expr \<noteq> [] then snd (set_capHeight (factor_of_expr expr) c) else c)
      in (c', consumeOptionalTerminator (snd r)))"

definition parseWidth :: "MTextContext \<Rightarrow> TextScanner \<Rightarrow> MTextContext \<times> TextScanner" where
  "parseWidth c sc =
     (let r = extractFloatExpression True sc; expr = fst r;
          c' = (if expr \<noteq> [] then snd (set_widthFactor (factor_of_expr expr) c) else c)
      in (c', consumeOptionalTerminator (snd r)))"

definition parseCharTracking :: "MTextContext \<Rightarrow> TextScanner \<Rightarrow> MTextContext \<times> TextScanner" where
  "parseCharTracking c sc =
     (let r = extractFloatExpression True sc; expr = fst r;
          f = factor_of_expr expr;
          c' = (if expr \<noteq> [] then
                  snd (set_charTrackingFactor (f\<lparr>fv_value := Abs (fv_value f)\<rparr>) c)
                else c)
      in (c', consumeOptionalTerminator (snd r)))"

definition parseOblique :: "MTextContext \<Rightarrow> TextScanner \<Rightarrow> MTextContext \<times> TextScanner" where
  "parseOblique c sc =
     (let r = extractFloatExpression False sc; obliqueExpr = fst r;
          c' = (if obliqueExpr \<noteq> [] then c\<lparr>oblique := ParseFloat obliqueExpr\<rparr> else c)
      in (c', consumeOptionalTerminator (snd r)))"

text \<open>
  \<open>parseInt\<close> of a run of decimal digits is its exact value. (JavaScript rounds a
  value above \<open>2^53\<close> to the nearest double; the comparison with 257 is not affected,
  and the statements about the RGB triple below are made for values below \<open>2^53\<close>.)
  \<open>parseAciColor\<close> returns the error of the setter, if it throws, with the scanner as it
  is then.
\<close>

definition parseAciColor ::
    "MTextContext \<Rightarrow> TextScanner \<Rightarrow> error option \<times> MTextContext \<times> TextScanner" where
  "parseAciColor c sc =
     (let r = extractIntExpression sc; aciExpr = fst r
      in if aciExpr \<noteq> [] \<and> parseInt aciExpr < 257 then
           (case set_aci (parseInt aciExpr) c of
              (Some e, c') \<Rightarrow> (Some e, c', snd r)
            | (None, c') \<Rightarrow> (None, c'\<lparr>rgb := None\<rparr>, consumeOptionalTerminator (snd r)))
         else (None, c, consumeOptionalTerminator (snd r)))"

definition parseRgbColor :: "MTextContext \<Rightarrow> TextScanner \<Rightarrow> MTextContext \<times> TextScanner" where
  "parseRgbColor c sc =
     (let e = extractIntExpression sc; rgbExpr = fst e;
          c' = (if rgbExpr \<noteq> [] then
                  (let v = sint (ToInt32 (parseInt rgbExpr) AND 0xffffff)
                   in case int2rgb v of (b, g, r) \<Rightarrow> c\<lparr>rgb := Some (r, g, b)\<rparr>)
                else c)
      in (c', consumeOptionalTerminator (snd e)))"

definition font_flag :: "jsstring \<times> int \<Rightarrow> jsstring \<Rightarrow> jsstring \<times> int" where
  "font_flag sw part =
     (if startsWith part (js ''b1'') then (fst sw, 700)
      else if startsWith part (js ''i1'') then (js ''Italic'', snd sw)
      else sw)"

definition parseFontProperties :: "MTextContext \<Rightarrow> TextScanner \<Rightarrow> MTextContext \<times> TextScanner" where
  "parseFontProperties c sc =
     (let r = extractExpression False sc;
          parts = split_on (ch CHR ''|'') (fst r) [];
          c' = (if hd parts \<noteq> [] then
                  (let sw = foldl font_flag (js ''Regular'', 400) (tl parts)
                   in c\<lparr>fontFace := \<lparr>family = hd parts, style = fst sw, weight = snd sw\<rparr>\<rparr>)
                else c)
      in (c', snd r))"

subsection \<open>The paragraph sub-grammar: \<open>parseParagraphProperties\<close>\<close>

function skip_commas :: "TextScanner \<Rightarrow> TextScanner" where
  "skip_commas sc = (if peek sc 0 = js '','' then skip_commas (consume 1 sc) else sc)"
  by pat_completeness auto
termination
  by (relation "measure (\<lambda>sc. length (sc_text sc) - sc_index sc)")
     (auto simp: consume_def peek_def js_def Let_def split: if_splits)

declare skip_commas.simps [simp del]

definition parseFloatValue :: "TextScanner \<Rightarrow> number \<times> TextScanner" where
  "parseFloatValue sc =
     (case paragraph_float_pattern (tail sc) of
        Some m \<Rightarrow> (ParseFloat m, skip_commas (consume (int (length m)) sc))
      | None \<Rightarrow> (Num 0, sc))"

definition CHAR_TO_ALIGN :: "jsstring \<Rightarrow> MTextParagraphAlignment option" where
  "CHAR_TO_ALIGN k =
     (if k = js ''l'' then Some LEFT else if k = js ''r'' then Some RIGHT
      else if k = js ''c'' then Some CENTER else if k = js ''j'' then Some JUSTIFIED
      else if k = js ''d'' then Some DISTRIBUTED else None)"

text \<open>The loop of the \<open>t\<close> case. It is the one loop of the parser whose body can leave
  the scanner where it was, so it is a partial function: \<open>None\<close> is "does not return".\<close>

partial_function (option) tab_stop_loop ::
    "TextScanner \<Rightarrow> tab_stop list \<Rightarrow> (TextScanner \<times> tab_stop list) option" where
  "tab_stop_loop sc tabStops =
     (if hasData sc then
        (let type = peek sc 0
         in if type = js ''r'' \<or> type = js ''c'' then
              (let r = parseFloatValue (consume 1 sc)
               in tab_stop_loop (snd r) (tabStops @ [TabString (hd type) (fst r)]))
            else
              (let r = parseFloatValue sc
               in if \<not> isNaN (fst r) then tab_stop_loop (snd r) (tabStops @ [TabNumber (fst r)])
                  else tab_stop_loop (consume 1 (snd r)) tabStops))
      else Some (sc, tabStops))"

partial_function (option) paragraph_loop ::
    "TextScanner \<Rightarrow> ParagraphProperties \<Rightarrow> ParagraphProperties option" where
  "paragraph_loop sc pp =
     (if hasData sc then
        (let g = get sc; cmd = fst g; sc1 = snd g
         in if cmd = js ''i'' then
              (let r = parseFloatValue sc1 in paragraph_loop (snd r) (pp\<lparr>indent := fst r\<rparr>))
            else if cmd = js ''l'' then
              (let r = parseFloatValue sc1 in paragraph_loop (snd r) (pp\<lparr>left := fst r\<rparr>))
            else if cmd = js ''r'' then
              (let r = parseFloatValue sc1 in paragraph_loop (snd r) (pp\<lparr>right := fst r\<rparr>))
            else if cmd = js ''x'' then paragraph_loop sc1 pp
            else if cmd = js ''q'' then
              (let a = get sc1;
                   al = (case CHAR_TO_ALIGN (fst a) of Some v \<Rightarrow> v | None \<Rightarrow> DEFAULT)
               in paragraph_loop (skip_commas (snd a)) (pp\<lparr>par_align := al\<rparr>))
            else if cmd = js ''t'' then
              (case tab_stop_loop sc1 [] of
                 None \<Rightarrow> None
               | Some t \<Rightarrow> paragraph_loop (fst t) (pp\<lparr>tab_stops := snd t\<rparr>))
            else paragraph_loop sc1 pp)
      else Some pp)"

definition parseParagraphProperties ::
    "MTextContext \<Rightarrow> TextScanner \<Rightarrow> (MTextContext \<times> TextScanner) option" where
  "parseParagraphProperties c sc =
     (let r = extractExpression False sc
      in case paragraph_loop (new_scanner (fst r)) ((ctx_paragraph c)\<lparr>tab_stops := []\<rparr>) of
           None \<Rightarrow> None
         | Some pp \<Rightarrow> Some (c\<lparr>ctx_paragraph := pp\<rparr>, snd r))"

declare tab_stop_loop.simps [code]
declare paragraph_loop.simps [code]


subsection \<open>\<open>parseProperties\<close>\<close>

text \<open>
  The \<open>switch\<close> of \<open>parseProperties\<close> on the fresh copy \<open>newCtx\<close>. The result is the
  error thrown, if any, the copy, and the parser (its scanner and its \<open>continueStroke\<close>
  flag change); \<open>None\<close> is "does not return".
\<close>

definition stroke_command :: "int \<Rightarrow> bool \<Rightarrow> MTextContext \<Rightarrow> MTextParser \<Rightarrow>
    (error option \<times> MTextContext \<times> MTextParser) option" where
  "stroke_command s state newCtx p =
     (let c = setStrokeState s state newCtx
      in if state then Some (None, c, p\<lparr>parser_continueStroke := True\<rparr>)
         else if \<not> hasAnyStroke c then Some (None, c, p\<lparr>parser_continueStroke := False\<rparr>)
         else Some (None, c, p))"

definition with_scanner :: "MTextParser \<Rightarrow> MTextContext \<times> TextScanner \<Rightarrow>
    (error option \<times> MTextContext \<times> MTextParser) option" where
  "with_scanner p r = Some (None, fst r, p\<lparr>scanner := snd r\<rparr>)"

definition property_switch :: "jsstring \<Rightarrow> MTextContext \<Rightarrow> MTextParser \<Rightarrow>
    (error option \<times> MTextContext \<times> MTextParser) option" where
  "property_switch cmd newCtx p =
     (if cmd = js ''L'' then stroke_command UNDERLINE True newCtx p
      else if cmd = js ''l'' then stroke_command UNDERLINE False newCtx p
      else if cmd = js ''O'' then stroke_command OVERLINE True newCtx p
      else if cmd = js ''o'' then stroke_command OVERLINE False newCtx p
      else if cmd = js ''K'' then stroke_command STRIKE_THROUGH True newCtx p
      else if cmd = js ''k'' then stroke_command STRIKE_THROUGH False newCtx p
      else if cmd = js ''A'' then with_scanner p (parseAlign newCtx (scanner p))
      else if cmd = js ''C'' then
        (case parseAciColor newCtx (scanner p) of
           (e, c, sc) \<Rightarrow> Some (e, c, p\<lparr>scanner := sc\<rparr>))
      else if cmd = js ''c'' then with_scanner p (parseRgbColor newCtx (scanner p))
      else if cmd = js ''H'' then with_scanner p (parseHeight newCtx (scanner p))
      else if cmd = js ''W'' then with_scanner p (parseWidth newCtx (scanner p))
      else if cmd = js ''Q'' then with_scanner p (parseOblique newCtx (scanner p))
      else if cmd = js ''T'' then with_scanner p (parseCharTracking newCtx (scanner p))
      else if cmd = js ''p'' then
        (case parseParagraphProperties newCtx (scanner p) of
           None \<Rightarrow> None
         | Some r \<Rightarrow> with_scanner p r)
      else if cmd = js ''f'' \<or> cmd = js ''F'' then
        with_scanner p (parseFontProperties newCtx (scanner p))
      else Some (Some (UnknownCommand cmd), newCtx, p))"

text \<open>
  \<open>parseProperties\<close>: a thrown error leaves \<open>this.ctx\<close> as it was (the copy is dropped)
  and keeps what the sub-parser did to the scanner; otherwise the copy, with
  \<open>continueStroke\<close> set from its strokes, becomes the current context.
\<close>

definition parseProperties :: "jsstring \<Rightarrow> MTextParser \<Rightarrow> (error option \<times> MTextParser) option" where
  "parseProperties cmd p =
     (case property_switch cmd (copy (ctx p)) p of
        None \<Rightarrow> None
      | Some (Some e, newCtx, p1) \<Rightarrow> Some (Some e, p1)
      | Some (None, newCtx, p1) \<Rightarrow>
          Some (None, p1\<lparr>parser_continueStroke := hasAnyStroke newCtx,
                         ctx := newCtx\<lparr>continueStroke := hasAnyStroke newCtx\<rparr>\<rparr>))"

subsection \<open>\<open>parse\<close> and its \<open>nextToken\<close>\<close>

text \<open>
  One pass through the body of the \<open>while\<close> loop of \<open>nextToken\<close> either returns a
  token (with the follow-up token, if one is set) or goes round again with the word
  built so far.
\<close>

datatype step = Return token "token option" MTextParser | Continue MTextParser jsstring

text \<open>
  \<open>toLowerCase\<close> is applied to the one character after \<open>%%\<close> and its result is only
  looked up in \<open>SPECIAL_CHAR_ENCODING\<close>, whose keys are \<open>c\<close>, \<open>d\<close> and \<open>p\<close>. The
  capitals A to Z are mapped; no character outside ASCII has \<open>c\<close>, \<open>d\<close> or \<open>p\<close> as
  its lower case, so the other characters are left as they are.
\<close>

definition toLowerCase :: "jsstring \<Rightarrow> jsstring" where
  "toLowerCase s = map (\<lambda>c. if 65 \<le> c \<and> c \<le> 90 then c + 32 else c) s"

definition SPECIAL_CHAR_ENCODING :: "jsstring \<Rightarrow> jsstring option" where
  "SPECIAL_CHAR_ENCODING k =
     (if k = js ''c'' then Some [216] else if k = js ''d'' then Some [176]
      else if k = js ''p'' then Some [177] else None)"

definition advance :: "int \<Rightarrow> MTextParser \<Rightarrow> MTextParser" where
  "advance n p = p\<lparr>scanner := consume n (scanner p)\<rparr>"

text \<open>The part of the body after the backslash handling (from the \<open>%%\<close> test on), for
  the current \<open>letter\<close> and \<open>escape\<close> flag.\<close>

definition plain_step :: "MTextParser \<Rightarrow> bool \<Rightarrow> jsstring \<Rightarrow> jsstring \<Rightarrow> step" where
  "plain_step p escape letter word =
     (if letter = js ''%'' \<and> peek (scanner p) 1 = js ''%'' then
        (case SPECIAL_CHAR_ENCODING (toLowerCase (peek (scanner p) 2)) of
           Some specialChar \<Rightarrow> Continue (advance 3 p) (word @ specialChar)
         | None \<Rightarrow> Continue (advance 3 p) word)
      else if letter = js '' '' then
        (if word \<noteq> [] then Return (WORD word) (Some SPACE) (advance 1 p)
         else Return SPACE None (advance 1 p))
      else if \<not> escape \<and> letter = js ''{'' then
        (if word \<noteq> [] then Return (WORD word) None p
         else Continue (pushCtx (advance 1 p)) word)
      else if \<not> escape \<and> letter = js ''}'' then
        (if word \<noteq> [] then Return (WORD word) None p
         else Continue (popCtx (advance 1 p)) word)
      else if \<not> inStackContext p \<and> letter = js ''^'' \<and> peek (scanner p) 1 \<noteq> [] then
        (let code = hd (peek (scanner p) 1); p1 = advance 2 p
         in if code = 32 then Continue p1 (word @ js ''^'')
            else if code = 73 then
              (if word \<noteq> [] then Return (WORD word) None p1 else Return TABULATOR None p1)
            else if code = 74 then
              (if word \<noteq> [] then Return (WORD word) None p1 else Return NEW_PARAGRAPH None p1)
            else if code = 77 then Continue p1 word
            else Continue p1 (word @ [replacement_glyph]))
      else Continue (advance 1 p) (if charCode_ge letter 32 then word @ letter else word))"

text \<open>
  The command branch: a backslash that is not an escape. \<open>decodeMultiByteChar\<close> rests on
  the platform's \<open>TextDecoder\<close> tables for GBK and Big5, which are not part of the
  repository; it is the parameter \<open>dec\<close>.
\<close>

definition multibyte_step :: "(jsstring \<Rightarrow> jsstring) \<Rightarrow> MTextParser \<Rightarrow> jsstring \<Rightarrow> step" where
  "multibyte_step dec p word =
     (if peek (scanner p) 0 = js ''+'' then
        (let p1 = advance 1 p
         in case hex4_pattern (tail (scanner p1)) of
              Some hexCode \<Rightarrow>
                (if word \<noteq> [] then Return (WORD word) None (advance 4 p1)
                 else Return (WORD (dec hexCode)) None (advance 4 p1))
            | None \<Rightarrow> Continue (advance (- 1) p1) (word @ backslash # js ''M''))
      else Continue p (word @ backslash # js ''M''))"

definition command_step ::
    "(jsstring \<Rightarrow> jsstring) \<Rightarrow> nat \<Rightarrow> MTextParser \<Rightarrow> jsstring \<Rightarrow> step option" where
  "command_step dec cmdStartIndex p word =
     (if word \<noteq> [] then Some (Return (WORD word) None p)
      else
        (let g = get (consume 1 (scanner p)); cmd = fst g; p1 = p\<lparr>scanner := snd g\<rparr>
         in if cmd = js ''~'' then Some (Return NBSP None p1)
            else if cmd = js ''P'' then Some (Return NEW_PARAGRAPH None p1)
            else if cmd = js ''N'' then Some (Return NEW_COLUMN None p1)
            else if cmd = js ''X'' then Some (Return WRAP_AT_DIMLINE None p1)
            else if cmd = js ''S'' then
              (let r = parseStacking (scanner p1)
               in Some (Return (fst r) None (p1\<lparr>scanner := snd r, inStackContext := False\<rparr>)))
            else if cmd = js ''m'' \<or> cmd = js ''M'' then Some (multibyte_step dec p1 word)
            else if cmd \<noteq> [] then
              (case parseProperties cmd p1 of
                 None \<Rightarrow> None
               | Some (None, p2) \<Rightarrow> Some (Continue p2 word)
               | Some (Some e, p2) \<Rightarrow>
                   Some (Continue p2
                     (word @ slice (tail (scanner p2)) cmdStartIndex (currentIndex (scanner p2)))))
            else Some (Continue p1 word)))"

definition nextToken_step :: "(jsstring \<Rightarrow> jsstring) \<Rightarrow> MTextParser \<Rightarrow> jsstring \<Rightarrow> step option" where
  "nextToken_step dec p word =
     (let letter0 = peek (scanner p) 0;
          cmdStartIndex = currentIndex (scanner p);
          control = charCode_less letter0 32;
          p1 = (if control then advance 1 p else p);
          letter = (if control then js '' '' else letter0)
      in if control \<and> letter0 = [9] then Some (Return TABULATOR None p1)
         else if control \<and> letter0 = [10] then Some (Return NEW_PARAGRAPH None p1)
         else if letter = [backslash] then
           (if str_includes (backslash # js ''{}'') (peek (scanner p1) 1) then
              (let p2 = advance 1 p1 in Some (plain_step p2 True (peek (scanner p2) 0) word))
            else command_step dec cmdStartIndex p1 word)
         else Some (plain_step p1 False letter word))"

partial_function (option) nextToken_loop ::
    "(jsstring \<Rightarrow> jsstring) \<Rightarrow> MTextParser \<Rightarrow> jsstring \<Rightarrow>
       (token \<times> token option \<times> MTextParser) option" where
  "nextToken_loop dec p word =
     (if hasData (scanner p) then
        (case nextToken_step dec p word of
           None \<Rightarrow> None
         | Some (Return t followup p') \<Rightarrow> Some (t, followup, p')
         | Some (Continue p' word') \<Rightarrow> nextToken_loop dec p' word')
      else if word \<noteq> [] then Some (WORD word, None, p)
      else Some (NONE, None, p))"

declare nextToken_loop.simps [code]

definition nextToken ::
    "(jsstring \<Rightarrow> jsstring) \<Rightarrow> MTextParser \<Rightarrow> (token \<times> token option \<times> MTextParser) option" where
  "nextToken dec p = nextToken_loop dec p []"

record MTextToken =
  tok :: token
  tok_ctx :: MTextContext

text \<open>
  The generator \<open>parse()\<close>: the tokens it yields, in order, when it finishes; \<open>None\<close>
  when it does not.
\<close>

partial_function (option) parse_loop ::
    "(jsstring \<Rightarrow> jsstring) \<Rightarrow> MTextParser \<Rightarrow> MTextToken list \<Rightarrow> MTextToken list option" where
  "parse_loop dec p yielded =
     (case nextToken dec p of
        None \<Rightarrow> None
      | Some (t, followup, p') \<Rightarrow>
          if t \<noteq> NONE then
            parse_loop dec p'
              (yielded @ \<lparr>tok = t, tok_ctx = ctx p'\<rparr>
                 # (case followup of
                      Some f \<Rightarrow> [\<lparr>tok = f, tok_ctx = ctx p'\<rparr>]
                    | None \<Rightarrow> []))
          else Some yielded)"

declare parse_loop.simps [code]

definition parse :: "(jsstring \<Rightarrow> jsstring) \<Rightarrow> jsstring \<Rightarrow> MTextContext \<Rightarrow> MTextToken list option" where
  "parse dec content c = parse_loop dec (new_MTextParser content c) []"

text \<open>A decoder for closed statements: one that knows no code page and always gives
  the replacement glyph. (No input used below contains a multi-byte code.)\<close>

definition no_code_page :: "jsstring \<Rightarrow> jsstring" where
  "no_code_page hex = [replacement_glyph]"

section \<open>Object identity: what \<open>copy()\<close> shares\<close>

text \<open>
  In JavaScript the fields \<open>rgb\<close>, \<open>fontFace\<close>, the three factor values and
  \<open>paragraph\<close> of a context hold references to objects, and \<open>paragraph.tab_stops\<close>
  holds a reference to an array. Whether a change made through one context shows in
  another depends on which objects they share, so the store is explicit here: a
  reference is an address, and the store maps addresses to objects.
\<close>

type_synonym ref = nat

record ParagraphObject =
  o_indent :: number
  o_left :: number
  o_right :: number
  o_par_align :: MTextParagraphAlignment
  o_tab_stops :: ref

record ContextObject =
  o_stroke :: int
  o_continueStroke :: bool
  o_aci :: int
  o_rgb :: "ref option"
  o_align :: MTextLineAlignment
  o_fontFace :: ref
  o_capHeight :: ref
  o_widthFactor :: ref
  o_charTrackingFactor :: ref
  o_oblique :: number
  o_paragraph :: ref

datatype heap_object =
    RgbArray "int \<times> int \<times> int"
  | TabStopArray "tab_stop list"
  | FontFaceObj FontFace
  | FactorObj FactorValue
  | ParagraphObj ParagraphObject
  | ContextObj ContextObject

text \<open>The store is the list of the objects allocated so far; a reference is a position
  in it.\<close>

type_synonym store = "heap_object list"

definition empty_store :: store where
  "empty_store = []"

definition cells :: "store \<Rightarrow> ref \<Rightarrow> heap_object option" where
  "cells h r = (if r < length h then Some (h ! r) else None)"

definition alloc :: "heap_object \<Rightarrow> store \<Rightarrow> ref \<times> store" where
  "alloc ob h = (length h, h @ [ob])"

definition write_cell :: "ref \<Rightarrow> heap_object \<Rightarrow> store \<Rightarrow> store" where
  "write_cell r ob h = h[r := ob]"

text \<open>\<open>new MTextContext()\<close>: the field initialisers allocate a font face, three factor
  values, and a paragraph object with an empty tab-stop array.\<close>

definition new_context_object :: "store \<Rightarrow> ref \<times> store" where
  "new_context_object h =
     (let (r_font, h1) = alloc (FontFaceObj (fontFace new_MTextContext)) h;
          (r_cap, h2) = alloc (FactorObj (capHeight new_MTextContext)) h1;
          (r_width, h3) = alloc (FactorObj (widthFactor new_MTextContext)) h2;
          (r_track, h4) = alloc (FactorObj (charTrackingFactor new_MTextContext)) h3;
          (r_tabs, h5) = alloc (TabStopArray []) h4;
          (r_par, h6) = alloc (ParagraphObj \<lparr>o_indent = Num 0, o_left = Num 0, o_right = Num 0,
                                          o_par_align = DEFAULT, o_tab_stops = r_tabs\<rparr>) h5
      in alloc (ContextObj \<lparr>o_stroke = 0, o_continueStroke = False, o_aci = 7, o_rgb = None,
                            o_align = BOTTOM, o_fontFace = r_font, o_capHeight = r_cap,
                            o_widthFactor = r_width, o_charTrackingFactor = r_track, o_oblique = Num 0,
                            o_paragraph = r_par\<rparr>) h6)"

text \<open>
  \<open>copy()\<close>, statement by statement: a new context is created; the primitive fields are
  assigned; \<open>rgb\<close> is assigned the same reference; each spread \<open>{ ...x }\<close> allocates a new
  object with the fields of \<open>x\<close>, so a field of \<open>x\<close> that is a reference (the
  \<open>tab_stops\<close> of the paragraph) is copied as a reference.
\<close>

definition spread :: "ref \<Rightarrow> store \<Rightarrow> (ref \<times> store) option" where
  "spread r h = (case cells h r of None \<Rightarrow> None | Some ob \<Rightarrow> Some (alloc ob h))"

definition copy_object :: "ref \<Rightarrow> store \<Rightarrow> (ref \<times> store) option" where
  "copy_object this h =
     (case cells h this of
        Some (ContextObj t) \<Rightarrow>
          (let (c, h0) = new_context_object h
           in case spread (o_fontFace t) h0 of None \<Rightarrow> None | Some (r_font, h1) \<Rightarrow>
              case spread (o_capHeight t) h1 of None \<Rightarrow> None | Some (r_cap, h2) \<Rightarrow>
              case spread (o_widthFactor t) h2 of None \<Rightarrow> None | Some (r_width, h3) \<Rightarrow>
              case spread (o_charTrackingFactor t) h3 of None \<Rightarrow> None | Some (r_track, h4) \<Rightarrow>
              case spread (o_paragraph t) h4 of None \<Rightarrow> None | Some (r_par, h5) \<Rightarrow>
                Some (c, write_cell c
                           (ContextObj \<lparr>o_stroke = o_stroke t,
                                        o_continueStroke = o_continueStroke t,
                                        o_aci = o_aci t, o_rgb = o_rgb t, o_align = o_align t,
                                        o_fontFace = r_font, o_capHeight = r_cap, o_widthFactor = r_width,
                                        o_charTrackingFactor = r_track, o_oblique = o_oblique t,
                                        o_paragraph = r_par\<rparr>) h5))
      | _ \<Rightarrow> None)"

text \<open>What a context reads as: the value of every field, following the references.\<close>

definition context_value :: "store \<Rightarrow> ref \<Rightarrow> MTextContext option" where
  "context_value h r =
     (case cells h r of
        Some (ContextObj t) \<Rightarrow>
          (case (cells h (o_fontFace t), cells h (o_capHeight t), cells h (o_widthFactor t),
                 cells h (o_charTrackingFactor t), cells h (o_paragraph t)) of
             (Some (FontFaceObj r_font), Some (FactorObj r_cap), Some (FactorObj r_width),
              Some (FactorObj r_track), Some (ParagraphObj r_par)) \<Rightarrow>
               (case cells h (o_tab_stops r_par) of
                  Some (TabStopArray r_tabs) \<Rightarrow>
                    Some \<lparr>stroke = o_stroke t, continueStroke = o_continueStroke t,
                          aci = o_aci t,
                          rgb = (case o_rgb t of
                                   None \<Rightarrow> None
                                 | Some a \<Rightarrow> (case cells h a of
                                                Some (RgbArray v) \<Rightarrow> Some v | _ \<Rightarrow> None)),
                          align = o_align t, fontFace = r_font, capHeight = r_cap, widthFactor = r_width,
                          charTrackingFactor = r_track, oblique = o_oblique t,
                          ctx_paragraph = \<lparr>indent = o_indent r_par, left = o_left r_par,
                                            right = o_right r_par, par_align = o_par_align r_par,
                                            tab_stops = r_tabs\<rparr>\<rparr>
                | _ \<Rightarrow> None)
           | _ \<Rightarrow> None)
      | _ \<Rightarrow> None)"

text \<open>Mutations a holder of a context can make: \<open>c.paragraph.tab_stops.push(v)\<close> and
  \<open>c.fontFace.family = s\<close>.\<close>

definition push_tab_stop :: "ref \<Rightarrow> tab_stop \<Rightarrow> store \<Rightarrow> store" where
  "push_tab_stop c v h =
     (case cells h c of
        Some (ContextObj t) \<Rightarrow>
          (case cells h (o_paragraph t) of
             Some (ParagraphObj r_par) \<Rightarrow>
               (case cells h (o_tab_stops r_par) of
                  Some (TabStopArray r_tabs) \<Rightarrow> write_cell (o_tab_stops r_par) (TabStopArray (r_tabs @ [v])) h
                | _ \<Rightarrow> h)
           | _ \<Rightarrow> h)
      | _ \<Rightarrow> h)"

definition assign_family :: "ref \<Rightarrow> jsstring \<Rightarrow> store \<Rightarrow> store" where
  "assign_family c s h =
     (case cells h c of
        Some (ContextObj t) \<Rightarrow>
          (case cells h (o_fontFace t) of
             Some (FontFaceObj r_font) \<Rightarrow> write_cell (o_fontFace t) (FontFaceObj (r_font\<lparr>family := s\<rparr>)) h
           | _ \<Rightarrow> h)
      | _ \<Rightarrow> h)"

definition copy_then_push :: "tab_stop \<Rightarrow> (MTextContext option \<times> MTextContext option) option" where
  "copy_then_push v =
     (let (c1, h1) = new_context_object empty_store
      in case copy_object c1 h1 of
           None \<Rightarrow> None
         | Some (c2, h2) \<Rightarrow>
             Some (context_value h2 c1, context_value (push_tab_stop c2 v h2) c1))"

definition copy_then_assign_family ::
    "jsstring \<Rightarrow> (MTextContext option \<times> MTextContext option) option" where
  "copy_then_assign_family s =
     (let (c1, h1) = new_context_object empty_store
      in case copy_object c1 h1 of
           None \<Rightarrow> None
         | Some (c2, h2) \<Rightarrow>
             Some (context_value h2 c1, context_value (assign_family c2 s h2) c1))"

section \<open>Notions used in the statements about termination\<close>

text \<open>A scanner state that can follow another in a run: the same text, an index that is
  not smaller, and that is within the text.\<close>

definition follows :: "TextScanner \<Rightarrow> TextScanner \<Rightarrow> bool" where
  "follows sc sc' = (sc_text sc' = sc_text sc \<and> sc_index sc \<le> sc_index sc'
                      \<and> sc_index sc' \<le> length (sc_text sc))"

text \<open>The parser a step of \<open>nextToken\<close> leaves, and whether the step returned.\<close>

primrec step_parser :: "step \<Rightarrow> MTextParser" where
  "step_parser (Return t f p) = p"
| "step_parser (Continue p w) = p"

primrec is_return :: "step \<Rightarrow> bool" where
  "is_return (Return t f p) = True"
| "is_return (Continue p w) = False"

text \<open>A text in which no backslash is directly followed by \<open>p\<close>: no paragraph command
  can be read from it.\<close>

fun no_paragraph_command :: "jsstring \<Rightarrow> bool" where
  "no_paragraph_command (a # b # r) =
     (\<not> (a = backslash \<and> b = ch CHR ''p'') \<and> no_paragraph_command (b # r))"
| "no_paragraph_command r = True"


section \<open>Theorems\<close>

lemmas string_defs = js_def backslash_def replacement_glyph_def charCode_less_def charCode_ge_def
  startsWith_def isDigit_def isHexDigit_def digits_prefix_def sign_prefix_def exponent_prefix_def
  fraction_suffix_def float_pattern_def paragraph_float_pattern_def hex4_pattern_def parseInt_def
  endsWith_x_def toLowerCase_def SPECIAL_CHAR_ENCODING_def CHAR_TO_ALIGN_def

lemmas scanner_defs = new_scanner_def currentIndex_def isEmpty_def hasData_def get_def consume_def
  peek_def find_char_def find_from.simps tail_def slice_def extractFloatExpression_def
  extractIntExpression_def extractExpression_def consumeOptionalTerminator_def

lemmas context_defs = new_MTextContext_def set_capHeight_def set_widthFactor_def
  set_charTrackingFactor_def set_aci_def UNDERLINE_def OVERLINE_def STRIKE_THROUGH_def
  setStrokeState_def hasAnyStroke_def copy_def

lemmas property_defs = align_of_parseInt_def parseAlign_def factor_of_expr_def parseHeight_def
  parseWidth_def parseCharTracking_def parseOblique_def parseAciColor_def parseRgbColor_def
  font_flag_def parseFontProperties_def skip_commas.simps parseFloatValue_def
  parseParagraphProperties_def stroke_command_def with_scanner_def property_switch_def
  parseProperties_def

lemmas parser_defs = new_MTextParser_def pushCtx_def popCtx_def advance_def plain_step_def
  multibyte_step_def command_step_def nextToken_step_def nextToken_loop.simps nextToken_def
  parse_loop.simps parse_def

subsection \<open>Colour conversion\<close>

lemma byte_bits:
  fixes x :: int
  assumes "0 \<le> x" and "x \<le> 255" and "bit x n"
  shows "n < 8"
proof -
  have "take_bit 8 x = x"
    using assms(1,2) by (simp add: take_bit_int_eq_self)
  then have "bit (take_bit 8 x) n"
    using assms(3) by simp
  then show ?thesis
    by (simp add: bit_take_bit_iff)
qed

lemma mask_ff: "(0xff :: 32 word) = mask 8"
  by (simp add: mask_eq_exp_minus_1)

lemma pack_low:
  assumes "0 \<le> r" "r \<le> 255" "0 \<le> g" "g \<le> 255" "0 \<le> b" "b \<le> 255"
  shows "(push_bit 16 (ToInt32 b) OR push_bit 8 (ToInt32 g) OR ToInt32 r) AND 0xff = ToInt32 r"
  unfolding mask_ff ToInt32_def
  apply (rule bit_word_eqI)
  using assms
  apply (auto simp: bit_simps dest: byte_bits)
  done

lemma pack_mid:
  assumes "0 \<le> r" "r \<le> 255" "0 \<le> g" "g \<le> 255" "0 \<le> b" "b \<le> 255"
  shows "signed_drop_bit 8 (push_bit 16 (ToInt32 b) OR push_bit 8 (ToInt32 g) OR ToInt32 r)
           AND 0xff = ToInt32 g"
  unfolding mask_ff ToInt32_def
  apply (rule bit_word_eqI)
  using assms
  apply (auto simp: bit_simps dest: byte_bits)
  done

lemma pack_high:
  assumes "0 \<le> r" "r \<le> 255" "0 \<le> g" "g \<le> 255" "0 \<le> b" "b \<le> 255"
  shows "signed_drop_bit 16 (push_bit 16 (ToInt32 b) OR push_bit 8 (ToInt32 g) OR ToInt32 r)
           AND 0xff = ToInt32 b"
  unfolding mask_ff ToInt32_def
  apply (rule bit_word_eqI)
  using assms
  apply (auto simp: bit_simps dest: byte_bits)
  done

lemma sint_byte: "0 \<le> r \<Longrightarrow> r \<le> 255 \<Longrightarrow> sint (ToInt32 r) = r"
  unfolding ToInt32_def
  by (simp add: sint_sbintrunc' signed_take_bit_int_eq_self)

lemma ToInt32_sint: "ToInt32 (sint w) = w"
  by (simp add: ToInt32_def)

lemma pack_bits:
  assumes "0 \<le> r" "r \<le> 255" "0 \<le> g" "g \<le> 255" "0 \<le> b" "b \<le> 255"
  shows "sint (push_bit 16 (ToInt32 b) OR push_bit 8 (ToInt32 g) OR ToInt32 r)
         = push_bit 16 b OR push_bit 8 g OR r"
  unfolding ToInt32_def
  apply (rule bit_eqI)
  using assms
  apply (auto simp: bit_simps bit_sint_iff dest: byte_bits)
  done

lemma or_bytes_sum:
  fixes r g b :: int
  assumes "0 \<le> r" "r \<le> 255" "0 \<le> g" "g \<le> 255" "0 \<le> b" "b \<le> 255"
  shows "push_bit 16 b OR push_bit 8 g OR r = 65536 * b + 256 * g + r"
proof -
  have low: "push_bit 8 g + r = push_bit 8 g OR r"
    using assms by (intro disjunctive_add) (auto simp: bit_simps dest: byte_bits)
  have high: "push_bit 16 b + (push_bit 8 g OR r) = push_bit 16 b OR (push_bit 8 g OR r)"
    using assms by (intro disjunctive_add) (auto simp: bit_simps dest: byte_bits)
  show ?thesis
    using low high by (simp add: push_bit_eq_mult)
qed

text \<open>
  Claim C9. For every RGB triple with each component in \<open>[0, 255]\<close>,
  \<open>int2rgb (rgb2int c) = c\<close>, and \<open>rgb2int\<close> puts component 0 in the low byte of the
  packed integer (component 1 in the second byte, component 2 in the third).
\<close>

theorem rgb_roundtrip:
  assumes "0 \<le> r" "r \<le> 255" "0 \<le> g" "g \<le> 255" "0 \<le> b" "b \<le> 255"
  shows "int2rgb (rgb2int (r, g, b)) = (r, g, b)
         \<and> rgb2int (r, g, b) = r + 256 * g + 65536 * b"
proof -
  let ?W = "push_bit 16 (ToInt32 b) OR push_bit 8 (ToInt32 g) OR ToInt32 r"
  have packed: "rgb2int (r, g, b) = sint ?W"
    by (simp add: rgb2int_def)
  have "int2rgb (sint ?W) = (r, g, b)"
    using assms
    by (simp add: int2rgb_def ToInt32_sint pack_low pack_mid pack_high sint_byte Let_def)
  moreover have "sint ?W = r + 256 * g + 65536 * b"
    using assms by (simp add: pack_bits or_bytes_sum)
  ultimately show ?thesis
    using packed by simp
qed

theorem rgb_roundtrip_witness:
  "(0::int) \<le> 17 \<and> (17::int) \<le> 255 \<and> (0::int) \<le> 34 \<and> (34::int) \<le> 255
   \<and> (0::int) \<le> 51 \<and> (51::int) \<le> 255
   \<and> int2rgb (rgb2int (17, 34, 51)) = (17, 34, 51)
   \<and> rgb2int (17, 34, 51) = 17 + 256 * 34 + 65536 * 51"
  using rgb_roundtrip [of 17 34 51] by (simp add: int2rgb_def ToInt32_def)

subsection \<open>The cursor's search\<close>

lemma find_plain_hit:
  "\<not> e \<Longrightarrow> find_from t c e i = int p \<Longrightarrow>
     i \<le> p \<and> p < length t \<and> t ! p = c \<and> (\<forall>j. i \<le> j \<and> j < p \<longrightarrow> t ! j \<noteq> c)"
proof (induction t c e i rule: find_from.induct)
  case (1 t c e i)
  note unfold = find_from.simps [of t c e i]
  note plain = \<open>\<not> e\<close>
  show ?case
  proof (cases "i < length t")
    case False
    with "1.prems" unfold show ?thesis by simp
  next
    case inside: True
    show ?thesis
    proof (cases "t ! i = c")
      case True
      with inside "1.prems" unfold show ?thesis by simp
    next
      case False
      with inside "1.prems" unfold have rec: "find_from t c e (i + 1) = int p" by simp
      from "1.IH"(3) [OF inside _ False plain rec]
      have ih: "i + 1 \<le> p \<and> p < length t \<and> t ! p = c \<and> (\<forall>j. i + 1 \<le> j \<and> j < p \<longrightarrow> t ! j \<noteq> c)"
        using plain by simp
      have "t ! j \<noteq> c" if "i \<le> j" "j < p" for j
      proof (cases "j = i")
        case True with False show ?thesis by simp
      next
        case False
        with that have "i + 1 \<le> j" by arith
        with ih that show ?thesis by blast
      qed
      with ih show ?thesis by auto
    qed
  qed
qed

lemma find_plain_miss:
  "\<not> e \<Longrightarrow> find_from t c e i = - 1 \<Longrightarrow> i \<le> j \<Longrightarrow> j < length t \<Longrightarrow> t ! j \<noteq> c"
proof (induction t c e i rule: find_from.induct)
  case (1 t c e i)
  note unfold = find_from.simps [of t c e i]
  note plain = \<open>\<not> e\<close>
  from "1.prems" have inside: "i < length t" by arith
  have ne: "t ! i \<noteq> c"
    using inside "1.prems"(1,2) unfold by (auto split: if_splits)
  with inside "1.prems"(1,2) unfold have rec: "find_from t c e (i + 1) = - 1" by simp
  show ?case
  proof (cases "j = i")
    case True with ne show ?thesis by simp
  next
    case False
    with "1.prems" have "i + 1 \<le> j" by arith
    from "1.IH"(3) [OF inside _ ne plain rec this "1.prems"(4)] show ?thesis using plain by simp
  qed
qed

lemma find_escape_irrelevant:
  "c \<noteq> backslash \<Longrightarrow> find_from t c e i = find_from t c False i"
proof (induction t c e i rule: find_from.induct)
  case (1 t c escape i)
  note esc = find_from.simps [of t c escape i]
  note plain = find_from.simps [of t c False i]
  note plain1 = find_from.simps [of t c False "i + 1"]
  show ?case
  proof (cases "i < length t")
    case False
    with esc plain show ?thesis by simp
  next
    case inside: True
    show ?thesis
    proof (cases "escape \<and> t ! i = backslash")
      case False
      with inside "1.IH"(3) "1.prems" esc plain show ?thesis by auto
    next
      case bs: True
      then have ne: "t ! i \<noteq> c" using "1.prems" by auto
      show ?thesis
      proof (cases "i + 1 < length t")
        case False
        with inside bs "1.IH"(2) "1.prems" esc plain ne show ?thesis by auto
      next
        case two: True
        show ?thesis
        proof (cases "t ! (i + 1) = c")
          case True
          with inside bs two esc plain plain1 ne show ?thesis by simp
        next
          case False
          with inside bs two "1.IH"(1) "1.prems" esc plain plain1 ne show ?thesis by simp
        qed
      qed
    qed
  qed
qed

lemma find_from_range: "find_from t c e i = - 1 \<or> (\<exists>p. find_from t c e i = int p)"
proof (induction t c e i rule: find_from.induct)
  case (1 t c escape i)
  note unfold = find_from.simps [of t c escape i]
  show ?case
  proof (cases "i < length t")
    case False
    with unfold show ?thesis by simp
  next
    case inside: True
    show ?thesis
    proof (cases "escape \<and> t ! i = backslash")
      case bs: True
      show ?thesis
      proof (cases "i + 1 < length t")
        case False
        with inside bs "1.IH"(2) unfold show ?thesis by simp
      next
        case two: True
        show ?thesis
        proof (cases "t ! (i + 1) = c")
          case True
          with inside bs two unfold have "find_from t c escape i = int (i + 1)" by simp
          then show ?thesis by blast
        next
          case False
          with inside bs two "1.IH"(1) unfold show ?thesis by simp
        qed
      qed
    next
      case nb: False
      show ?thesis
      proof (cases "t ! i = c")
        case True
        with inside nb unfold have "find_from t c escape i = int i" by auto
        then show ?thesis by blast
      next
        case False
        with inside nb "1.IH"(3) unfold show ?thesis by auto
      qed
    qed
  qed
qed


text \<open>
  The claim as stated fails: in the two-character text backslash, semicolon the
  escape-aware search for the semicolon returns position 1, the position of the
  semicolon that follows the backslash (the character at position 0).
\<close>

theorem find_escape_counterexample:
  "find_char (new_scanner (backslash # js '';'')) (ch CHR '';'') True = 1
   \<and> peek (new_scanner (backslash # js '';'')) 0 = [backslash]"
  by (simp add: find_char_def new_scanner_def find_from.simps js_def backslash_def peek_def)

text \<open>
  Claim C6, amended. For every text and every target character other than the
  backslash, \<open>find\<close> with the escape flag set returns the position of the first
  occurrence of the target at or after the current index, and \<open>-1\<close> when there is
  none, exactly as it does without the flag: a backslash is skipped together with the
  character after it only when that character is not the target, and a target that is
  immediately preceded by a backslash is reported.
\<close>

theorem find_escape_first_occurrence:
  assumes "c \<noteq> backslash"
  shows "find_char s c True = find_char s c False
         \<and> (find_char s c True = - 1 \<longleftrightarrow>
              (\<forall>j. sc_index s \<le> j \<and> j < length (sc_text s) \<longrightarrow> sc_text s ! j \<noteq> c))
         \<and> (\<forall>p. find_char s c True = int p \<longrightarrow>
              sc_index s \<le> p \<and> p < length (sc_text s) \<and> sc_text s ! p = c
              \<and> (\<forall>j. sc_index s \<le> j \<and> j < p \<longrightarrow> sc_text s ! j \<noteq> c))"
proof -
  let ?t = "sc_text s" and ?i = "sc_index s"
  have same: "find_from ?t c True ?i = find_from ?t c False ?i"
    using assms by (rule find_escape_irrelevant)
  have hit: "\<forall>p. find_from ?t c False ?i = int p \<longrightarrow>
              ?i \<le> p \<and> p < length ?t \<and> ?t ! p = c \<and> (\<forall>j. ?i \<le> j \<and> j < p \<longrightarrow> ?t ! j \<noteq> c)"
    using find_plain_hit [of False ?t c ?i] by blast
  have miss: "find_from ?t c False ?i = - 1 \<longleftrightarrow> (\<forall>j. ?i \<le> j \<and> j < length ?t \<longrightarrow> ?t ! j \<noteq> c)"
  proof
    assume "find_from ?t c False ?i = - 1"
    then show "\<forall>j. ?i \<le> j \<and> j < length ?t \<longrightarrow> ?t ! j \<noteq> c"
      using find_plain_miss [of False ?t c ?i] by blast
  next
    assume none: "\<forall>j. ?i \<le> j \<and> j < length ?t \<longrightarrow> ?t ! j \<noteq> c"
    show "find_from ?t c False ?i = - 1"
    proof (rule ccontr)
      assume "find_from ?t c False ?i \<noteq> - 1"
      then obtain p where "find_from ?t c False ?i = int p"
        using find_from_range [of ?t c False ?i] by blast
      with hit have "?i \<le> p \<and> p < length ?t \<and> ?t ! p = c" by blast
      with none show False by blast
    qed
  qed
  show ?thesis
    unfolding find_char_def using same hit miss by simp
qed

theorem find_escape_first_occurrence_witness:
  "ch CHR '';'' \<noteq> backslash
   \<and> find_char (new_scanner (backslash # js '';'')) (ch CHR '';'') True
       = find_char (new_scanner (backslash # js '';'')) (ch CHR '';'') False"
  using find_escape_first_occurrence [of "ch CHR '';''" "new_scanner (backslash # js '';'')"]
  by (simp add: backslash_def)

subsection \<open>The setters of the context\<close>

text \<open>
  Claim C8. Assigning the indexed colour throws the range error if and only if the
  value is outside \<open>[0, 256]\<close>; a throwing assignment leaves the context as it was; a
  successful one stores the value and sets the RGB triple to null, changing nothing
  else; and no other operation of the state model throws.
\<close>

theorem aci_setter_range_error:
  "(fst (set_aci v c) = Some AciNotInRange \<longleftrightarrow> v < 0 \<or> 256 < v)
   \<and> (fst (set_aci v c) \<noteq> None \<longrightarrow> snd (set_aci v c) = c)
   \<and> (fst (set_aci v c) = None \<longrightarrow> snd (set_aci v c) = c\<lparr>aci := v, rgb := None\<rparr>)
   \<and> (\<forall>op. fst (ctx_apply op c) \<noteq> None \<longleftrightarrow> (\<exists>w. op = SetAci w \<and> (w < 0 \<or> 256 < w)))"
proof -
  have setter: "(fst (set_aci v c) = Some AciNotInRange \<longleftrightarrow> v < 0 \<or> 256 < v)
                \<and> (fst (set_aci v c) \<noteq> None \<longrightarrow> snd (set_aci v c) = c)
                \<and> (fst (set_aci v c) = None \<longrightarrow> snd (set_aci v c) = c\<lparr>aci := v, rgb := None\<rparr>)"
    by (auto simp: set_aci_def)
  have only: "fst (ctx_apply op c) \<noteq> None \<longleftrightarrow> (\<exists>w. op = SetAci w \<and> (w < 0 \<or> 256 < w))" for op
    by (cases op)
       (auto simp: set_aci_def set_capHeight_def set_widthFactor_def set_charTrackingFactor_def
                   set_underline_def set_strikeThrough_def set_overline_def)
  from setter only show ?thesis by blast
qed

theorem aci_setter_range_error_witness:
  "fst (set_aci 257 new_MTextContext) = Some AciNotInRange
   \<and> snd (set_aci 257 new_MTextContext) = new_MTextContext
   \<and> fst (set_aci 256 new_MTextContext) = None
   \<and> snd (set_aci 256 new_MTextContext) = new_MTextContext\<lparr>aci := 256, rgb := None\<rparr>"
  using aci_setter_range_error [of 257 new_MTextContext]
        aci_setter_range_error [of 256 new_MTextContext]
  by (simp add: set_aci_def)

subsection \<open>The colour commands\<close>













subsection \<open>The worked stacking inputs\<close>

text \<open>
  Claim C5. From the default context, \<open>\S1/2;\<close> yields the single token
  \<open>STACK ("1", "2", "/")\<close>, \<open>\S1^ 2;\<close> yields \<open>STACK ("1", "2", "^")\<close> (the space
  after the caret is not part of the denominator), and \<open>\S\N^ \P;\<close> yields
  \<open>STACK ("N", "P", "^")\<close> (the backslashes are dropped).
\<close>

theorem stacking_worked_examples:
  "map_option (map tok) (parse dec (backslash # js ''S1/2;'') new_MTextContext)
     = Some [STACK (js ''1'') (js ''2'') (js ''/'')]
   \<and> map_option (map tok) (parse dec (backslash # js ''S1^ 2;'') new_MTextContext)
     = Some [STACK (js ''1'') (js ''2'') (js ''^'')]
   \<and> map_option (map tok)
       (parse dec (backslash # js ''S'' @ backslash # js ''N^ '' @ backslash # js ''P;'')
          new_MTextContext)
     = Some [STACK (js ''N'') (js ''P'') (js ''^'')]"
  by code_simp

subsection \<open>Unknown command letters\<close>

text \<open>
  Claim C2 (the code departs from it). For every letter that is not a recognised
  command (and is not the backslash or a brace, which make an escape), the two-character
  input backslash, letter yields no token at all, from any context: the text put back
  into the word is cut from the remaining text, not from the whole text, and the
  remaining text is empty.
\<close>

theorem unknown_command_yields_no_token:
  assumes "x \<notin> set (js ''~PNXSMmLlOoKkACcHWQTpfF'')"
    and "x \<noteq> backslash" and "x \<notin> set (js ''{}'')"
  shows "parse dec [backslash, x] c = Some []"
  using assms
  by (simp add: string_defs scanner_defs context_defs property_defs parser_defs)

theorem unknown_command_yields_no_token_witness:
  "ch CHR ''z'' \<notin> set (js ''~PNXSMmLlOoKkACcHWQTpfF'') \<and> ch CHR ''z'' \<noteq> backslash
   \<and> ch CHR ''z'' \<notin> set (js ''{}'')
   \<and> parse no_code_page [backslash, ch CHR ''z''] new_MTextContext = Some []"
  using unknown_command_yields_no_token [of "ch CHR ''z''" no_code_page new_MTextContext]
  by (simp add: js_def backslash_def)

text \<open>With more text after the command, the two characters that follow it are doubled
  instead: \<open>\zabc\<close> yields the word \<open>ababc\<close>.\<close>

lemma unknown_command_doubles_text:
  "map_option (map tok) (parse dec (backslash # js ''zabc'') new_MTextContext)
     = Some [WORD (js ''ababc'')]"
  by code_simp

subsection \<open>The special codes\<close>

lemma lower_not_key:
  assumes "x \<notin> set (js ''cCdDpP'')"
  shows "SPECIAL_CHAR_ENCODING (toLowerCase [x]) = None"
  using assms by (auto simp: SPECIAL_CHAR_ENCODING_def toLowerCase_def js_def)

text \<open>
  Claim C3, amended. From the default context, \<open>%%c%%d%%pText\<close> yields exactly one
  token, the word made of U+00D8 (the Latin letter O with stroke, code 216), the degree
  sign, the plus-minus sign and \<open>Text\<close>, with the initial context; and for a third
  character other than \<open>c\<close>, \<open>C\<close>, \<open>d\<close>, \<open>D\<close>, \<open>p\<close>, \<open>P\<close> the three characters are
  consumed and nothing is added to the word.
\<close>

theorem special_codes:
  "parse dec (js ''%%c%%d%%pText'') new_MTextContext
     = Some [\<lparr>tok = WORD (216 # 176 # 177 # js ''Text''), tok_ctx = new_MTextContext\<rparr>]
   \<and> (\<forall>p word x. peek (scanner p) 0 = js ''%'' \<and> peek (scanner p) 1 = js ''%''
          \<and> peek (scanner p) 2 = [x] \<and> x \<notin> set (js ''cCdDpP'')
        \<longrightarrow> nextToken_loop dec p word = nextToken_loop dec (advance 3 p) word)"
proof -
  have example: "parse dec (js ''%%c%%d%%pText'') new_MTextContext
     = Some [\<lparr>tok = WORD (216 # 176 # 177 # js ''Text''), tok_ctx = new_MTextContext\<rparr>]"
    by code_simp
  have skip: "nextToken_loop dec p word = nextToken_loop dec (advance 3 p) word"
    if a: "peek (scanner p) 0 = js ''%''" and b: "peek (scanner p) 1 = js ''%''"
      and c: "peek (scanner p) 2 = [x]" and d: "x \<notin> set (js ''cCdDpP'')" for p word x
  proof -
    have data: "hasData (scanner p)"
      using a by (auto simp: peek_def hasData_def js_def Let_def split: if_splits)
    have step: "nextToken_step dec p word = Some (Continue (advance 3 p) word)"
      using a b c lower_not_key [OF d]
      by (simp add: nextToken_step_def plain_step_def charCode_less_def js_def backslash_def Let_def)
    show ?thesis
      by (subst nextToken_loop.simps) (simp add: data step)
  qed
  from example skip show ?thesis by blast
qed

text \<open>The claim as stated fails: the first glyph is not the diameter sign U+2300
  (code 8960).\<close>

theorem special_codes_counterexample:
  "parse no_code_page (js ''%%c%%d%%pText'') new_MTextContext
     \<noteq> Some [\<lparr>tok = WORD (8960 # 176 # 177 # js ''Text''), tok_ctx = new_MTextContext\<rparr>]"
  by code_simp

theorem special_codes_witness:
  "peek (scanner (new_MTextParser (js ''%%xok'') new_MTextContext)) 0 = js ''%''
   \<and> peek (scanner (new_MTextParser (js ''%%xok'') new_MTextContext)) 1 = js ''%''
   \<and> peek (scanner (new_MTextParser (js ''%%xok'') new_MTextContext)) 2 = [120]
   \<and> 120 \<notin> set (js ''cCdDpP'')
   \<and> nextToken_loop no_code_page (new_MTextParser (js ''%%xok'') new_MTextContext) []
       = nextToken_loop no_code_page
           (advance 3 (new_MTextParser (js ''%%xok'') new_MTextContext)) []"
proof -
  let ?p = "new_MTextParser (js ''%%xok'') new_MTextContext"
  have a: "peek (scanner ?p) 0 = js ''%''" by (simp add: string_defs scanner_defs parser_defs)
  have b: "peek (scanner ?p) 1 = js ''%''" by (simp add: string_defs scanner_defs parser_defs)
  have c: "peek (scanner ?p) 2 = [120]" by (simp add: string_defs scanner_defs parser_defs)
  have d: "120 \<notin> set (js ''cCdDpP'')" by (simp add: js_def)
  from special_codes [of no_code_page] a b c d
  have "nextToken_loop no_code_page ?p [] = nextToken_loop no_code_page (advance 3 ?p) []"
    by blast
  with a b c d show ?thesis by blast
qed

subsection \<open>The stacking sub-grammar\<close>

lemma parseNumerator_extends:
  "\<exists>s. fst (fst (parseNumerator sc word)) = word @ s"
proof (induction sc word rule: parseNumerator.induct)
  case (1 sc word)
  note unfold = parseNumerator.simps [of sc word]
  show ?case
  proof (cases "hasData sc")
    case False
    with unfold show ?thesis by simp
  next
    case data: True
    let ?r = "getNextChar sc"
    let ?c = "fst (fst ?r)"
    let ?escape = "snd (fst ?r)"
    show ?thesis
    proof (cases "\<not> ?escape \<and> (?c = js ''/'' \<or> ?c = js ''#'' \<or> ?c = js ''^'')")
      case True
      with data unfold show ?thesis by (simp add: Let_def)
    next
      case False
      from "1.IH" [OF data refl refl refl False]
      obtain s where "fst (fst (parseNumerator (snd ?r) (word @ ?c))) = (word @ ?c) @ s" by blast
      with data False unfold show ?thesis by (simp add: Let_def)
    qed
  qed
qed

lemma empty_numerator_starts_with_divider:
  assumes "stack_numerator e = []" and "stack_type e \<noteq> []"
  shows "e \<noteq> [] \<and> hd e \<in> set (js ''/#^'')"
proof -
  let ?sc = "new_scanner e"
  note unfold = parseNumerator.simps [of ?sc "[]"]
  have data: "hasData ?sc"
  proof (rule ccontr)
    assume "\<not> hasData ?sc"
    with unfold have "stack_type e = []" by (simp add: stack_type_def)
    with assms(2) show False by simp
  qed
  then have ne: "e \<noteq> []" by (auto simp: hasData_def new_scanner_def)
  let ?r = "getNextChar ?sc"
  let ?c = "fst (fst ?r)"
  let ?escape = "snd (fst ?r)"
  have divider: "\<not> ?escape \<and> (?c = js ''/'' \<or> ?c = js ''#'' \<or> ?c = js ''^'')"
  proof (rule ccontr)
    assume other: "\<not> (\<not> ?escape \<and> (?c = js ''/'' \<or> ?c = js ''#'' \<or> ?c = js ''^''))"
    with data unfold
    have rest: "parseNumerator ?sc [] = parseNumerator (snd ?r) ([] @ ?c)"
      by (simp add: Let_def)
    obtain s where s: "fst (fst (parseNumerator (snd ?r) ([] @ ?c))) = ([] @ ?c) @ s"
      using parseNumerator_extends by blast
    with rest assms(1) have c_empty: "?c = []" by (simp add: stack_numerator_def)
    have "\<not> hasData (snd ?r)"
      using c_empty ne
      by (auto simp: getNextChar_def new_scanner_def peek_def consume_def hasData_def
            charCode_less_def js_def Let_def split: if_splits list.splits)
    with rest c_empty have "stack_type e = []"
      by (simp add: stack_type_def parseNumerator.simps [of "snd ?r"])
    with assms(2) show False by simp
  qed
  then have "hd e \<in> set (js ''/#^'')"
    using ne
    by (auto simp: getNextChar_def new_scanner_def peek_def charCode_less_def js_def backslash_def
          Let_def hd_conv_nth split: if_splits list.splits)
  with ne show ?thesis by simp
qed

text \<open>
  Claim C10. \<open>parseStacking\<close> builds its token from the numerator, the divider and the
  denominator it reads from the extracted expression. When the numerator read is empty
  and the denominator read contains \<open>I/\<close>, the token is \<open>STACK (" ", " ", "/")\<close>
  whatever else the denominator holds (and the expression then begins with a divider);
  in every other case the token carries the numerator, the denominator and the divider as
  they were read.
\<close>

theorem stacking_special_case:
  "fst (parseStacking sc) = stack_token (fst (extractExpression True sc))
   \<and> (stack_numerator e = [] \<and> str_includes (stack_denominator e) (js ''I/'')
        \<longrightarrow> stack_token e = STACK (js '' '') (js '' '') (js ''/'')
            \<and> e \<noteq> [] \<and> hd e \<in> set (js ''/#^''))
   \<and> (\<not> (stack_numerator e = [] \<and> str_includes (stack_denominator e) (js ''I/''))
        \<longrightarrow> stack_token e = STACK (stack_numerator e) (stack_denominator e) (stack_type e))"
proof -
  have link: "fst (parseStacking sc) = stack_token (fst (extractExpression True sc))"
    by (simp add: parseStacking_def Let_def)
  have special: "stack_token e = STACK (js '' '') (js '' '') (js ''/'')
                 \<and> e \<noteq> [] \<and> hd e \<in> set (js ''/#^'')"
    if empty: "stack_numerator e = []" and inc: "str_includes (stack_denominator e) (js ''I/'')"
  proof -
    have "stack_denominator e \<noteq> []"
      using inc by (auto simp: js_def)
    then have "stack_type e \<noteq> []"
      by (auto simp: stack_denominator_def split: if_splits)
    with empty have "e \<noteq> [] \<and> hd e \<in> set (js ''/#^'')"
      by (rule empty_numerator_starts_with_divider)
    moreover have "stack_token e = STACK (js '' '') (js '' '') (js ''/'')"
      using empty inc by (simp add: stack_token_def)
    ultimately show ?thesis by simp
  qed
  have other: "stack_token e = STACK (stack_numerator e) (stack_denominator e) (stack_type e)"
    if "\<not> (stack_numerator e = [] \<and> str_includes (stack_denominator e) (js ''I/''))"
    using that by (auto simp: stack_token_def Let_def)
  from link special other show ?thesis by blast
qed

theorem stacking_special_case_witness:
  "stack_numerator (js ''^I/^J'') = []
   \<and> str_includes (stack_denominator (js ''^I/^J'')) (js ''I/'')
   \<and> stack_token (js ''^I/^J'') = STACK (js '' '') (js '' '') (js ''/'')
   \<and> hd (js ''^I/^J'') \<in> set (js ''/#^'')
   \<and> fst (parseStacking (new_scanner (js ''^I/^J;'')))
       = stack_token (fst (extractExpression True (new_scanner (js ''^I/^J;''))))
   \<and> stack_numerator (js ''1/I/'') = js ''1''
   \<and> stack_token (js ''1/I/'') = STACK (js ''1'') (js ''I/'') (js ''/'')"
proof -
  have n: "stack_numerator (js ''^I/^J'') = []"
    by code_simp
  have d: "str_includes (stack_denominator (js ''^I/^J'')) (js ''I/'')"
    by code_simp
  have n': "stack_numerator (js ''1/I/'') = js ''1''"
    by code_simp
  have d': "stack_denominator (js ''1/I/'') = js ''I/''"
    by code_simp
  have t': "stack_type (js ''1/I/'') = js ''/''"
    by code_simp
  have ne: "js ''1'' \<noteq> []"
    by (simp add: js_def)
  from stacking_special_case [of "new_scanner (js ''^I/^J;'')" "js ''^I/^J''"]
       stacking_special_case [of "new_scanner (js ''^I/^J;'')" "js ''1/I/''"] n d n' d' t' ne
  show ?thesis by simp
qed

subsection \<open>Termination\<close>

text \<open>Every sub-parser leaves the scanner on the same text, at an index that is not
  smaller.\<close>

lemma follows_trans: "follows a b \<Longrightarrow> follows b c \<Longrightarrow> follows a c"
  by (auto simp: follows_def)

lemma follows_consume: "follows a b \<Longrightarrow> 0 \<le> n \<Longrightarrow> follows a (consume n b)"
  by (auto simp: follows_def consume_def)

lemma follows_get: "follows a b \<Longrightarrow> follows a (snd (get b))"
  by (auto simp: follows_def get_def isEmpty_def)

lemma follows_terminator: "follows a b \<Longrightarrow> follows a (consumeOptionalTerminator b)"
  by (simp add: consumeOptionalTerminator_def follows_consume)

lemma follows_extractFloat: "follows a b \<Longrightarrow> follows a (snd (extractFloatExpression rel b))"
  by (auto simp: extractFloatExpression_def follows_consume split: option.splits)

lemma follows_extractInt: "follows a b \<Longrightarrow> follows a (snd (extractIntExpression b))"
  by (auto simp: extractIntExpression_def follows_consume Let_def)

lemma follows_extractExpression: "follows a b \<Longrightarrow> follows a (snd (extractExpression esc b))"
  by (auto simp: extractExpression_def follows_consume Let_def)

lemma follows_parseAlign: "follows a b \<Longrightarrow> follows a (snd (parseAlign c b))"
  by (simp add: parseAlign_def Let_def follows_terminator follows_get)

lemma follows_parseHeight: "follows a b \<Longrightarrow> follows a (snd (parseHeight c b))"
  by (simp add: parseHeight_def Let_def follows_terminator follows_extractFloat)

lemma follows_parseWidth: "follows a b \<Longrightarrow> follows a (snd (parseWidth c b))"
  by (simp add: parseWidth_def Let_def follows_terminator follows_extractFloat)

lemma follows_parseCharTracking: "follows a b \<Longrightarrow> follows a (snd (parseCharTracking c b))"
  by (simp add: parseCharTracking_def Let_def follows_terminator follows_extractFloat)

lemma follows_parseOblique: "follows a b \<Longrightarrow> follows a (snd (parseOblique c b))"
  by (simp add: parseOblique_def Let_def follows_terminator follows_extractFloat)

lemma follows_parseAciColor: "follows a b \<Longrightarrow> follows a (snd (snd (parseAciColor c b)))"
  by (auto simp: parseAciColor_def Let_def follows_terminator follows_extractInt
           split: prod.splits option.splits)

lemma follows_parseAciColor_eq:
  "follows a b \<Longrightarrow> parseAciColor c b = (e, c', sc) \<Longrightarrow> follows a sc"
  using follows_parseAciColor [of a b c] by simp

lemma follows_parseRgbColor: "follows a b \<Longrightarrow> follows a (snd (parseRgbColor c b))"
  by (simp add: parseRgbColor_def Let_def follows_terminator follows_extractInt)

lemma follows_parseFontProperties: "follows a b \<Longrightarrow> follows a (snd (parseFontProperties c b))"
  by (simp add: parseFontProperties_def Let_def follows_extractExpression)

lemma follows_parseStacking: "follows a b \<Longrightarrow> follows a (snd (parseStacking b))"
  by (simp add: parseStacking_def Let_def follows_extractExpression)

lemma follows_parseParagraph:
  "follows a b \<Longrightarrow> parseParagraphProperties c b = Some r \<Longrightarrow> follows a (snd r)"
  by (auto simp: parseParagraphProperties_def Let_def follows_extractExpression split: option.splits)

lemmas follows_subparsers = follows_parseAlign follows_parseHeight follows_parseWidth
  follows_parseCharTracking follows_parseOblique follows_parseAciColor follows_parseRgbColor
  follows_parseFontProperties follows_parseStacking

lemma follows_property_switch:
  assumes "follows a (scanner p)" and "property_switch cmd c p = Some (e, c', p1)"
  shows "follows a (scanner p1)"
  using assms
  by (auto simp: property_switch_def stroke_command_def with_scanner_def Let_def
                 follows_subparsers
           dest: follows_parseParagraph follows_parseAciColor_eq
           split: if_splits option.splits prod.splits)


lemma follows_parseProperties:
  assumes "follows a (scanner p)" and "parseProperties cmd p = Some (e, p1)"
  shows "follows a (scanner p1)"
  using assms
  by (auto simp: parseProperties_def split: option.splits prod.splits dest: follows_property_switch)

lemma follows_advance: "follows a (scanner p) \<Longrightarrow> 0 \<le> n \<Longrightarrow> follows a (scanner (advance n p))"
  by (simp add: advance_def follows_consume)

lemma advance_strict:
  "hasData (scanner p) \<Longrightarrow> 0 < n \<Longrightarrow> sc_index (scanner p) < sc_index (scanner (advance n p))"
  by (auto simp: advance_def consume_def hasData_def)

lemma plain_step_follows:
  "follows a (scanner p) \<Longrightarrow> follows a (scanner (step_parser (plain_step p esc letter word)))"
  by (auto simp: plain_step_def Let_def pushCtx_def popCtx_def follows_advance
           split: option.splits)

lemma plain_step_strict:
  "hasData (scanner p) \<Longrightarrow>
     sc_index (scanner p) < sc_index (scanner (step_parser (plain_step p esc letter word)))
     \<or> (word \<noteq> [] \<and> is_return (plain_step p esc letter word))"
  by (auto simp: plain_step_def Let_def pushCtx_def popCtx_def advance_strict
           split: option.splits)


lemma multibyte_step_follows:
  "follows a (scanner p) \<Longrightarrow> follows a (scanner (step_parser (multibyte_step dec p word)))"
  by (auto simp: multibyte_step_def Let_def advance_def consume_def peek_def follows_def js_def
           split: option.splits if_splits)

lemma command_step_after:
  assumes "word = []"
    and p1: "follows b (snd (get (consume 1 (scanner p))))"
    and "command_step dec i p word = Some st"
  shows "follows b (scanner (step_parser st))"
proof -
  let ?g = "get (consume 1 (scanner p))"
  let ?p1 = "p\<lparr>scanner := snd ?g\<rparr>"
  have p1': "follows b (scanner ?p1)"
    using p1 by simp
  have stack: "follows b (snd (parseStacking (snd ?g)))"
    using p1 by (simp add: follows_parseStacking)
  have multi: "follows b (scanner (step_parser (multibyte_step dec ?p1 word)))"
    using p1' by (rule multibyte_step_follows)
  have pprop: "\<And>cmd e p2. parseProperties cmd ?p1 = Some (e, p2) \<Longrightarrow> follows b (scanner p2)"
    using p1' by (rule follows_parseProperties)
  show ?thesis
    using assms(1,3) p1' stack multi pprop
    by (auto simp: command_step_def Let_def split: if_splits option.splits prod.splits)
qed

lemma command_step_follows:
  assumes "follows a (scanner p)" and "command_step dec i p word = Some st"
  shows "follows a (scanner (step_parser st))"
proof (cases "word = []")
  case False
  with assms show ?thesis by (auto simp: command_step_def)
next
  case True
  have "follows a (snd (get (consume 1 (scanner p))))"
    using assms(1) by (simp add: follows_get follows_consume)
  from command_step_after [OF True this assms(2)] show ?thesis .
qed

lemma command_step_strict:
  assumes "follows (scanner p) (scanner p)" and "hasData (scanner p)"
    and "command_step dec i p word = Some st"
  shows "sc_index (scanner p) < sc_index (scanner (step_parser st)) \<or> (word \<noteq> [] \<and> is_return st)"
proof (cases "word = []")
  case False
  with assms show ?thesis by (auto simp: command_step_def)
next
  case True
  let ?b = "consume 1 (scanner p)"
  have b: "follows ?b ?b"
    using assms(1) by (auto simp: follows_def consume_def)
  then have "follows ?b (snd (get ?b))"
    by (rule follows_get)
  from command_step_after [OF True this assms(3)]
  have "follows ?b (scanner (step_parser st))" .
  moreover have "sc_index (scanner p) < sc_index ?b"
    using assms(2) by (auto simp: consume_def hasData_def)
  ultimately show ?thesis by (auto simp: follows_def)
qed

lemma command_step_none:
  assumes "command_step dec i p word = None"
  shows "fst (get (consume 1 (scanner p))) = js ''p''"
  using assms
  by (auto simp: command_step_def Let_def parseProperties_def property_switch_def
                 stroke_command_def with_scanner_def
           split: if_splits option.splits prod.splits)


lemma nextToken_step_control:
  assumes "charCode_less (peek (scanner p) 0) 32"
  shows "nextToken_step dec p word =
           (if peek (scanner p) 0 = [9] then Some (Return TABULATOR None (advance 1 p))
            else if peek (scanner p) 0 = [10] then Some (Return NEW_PARAGRAPH None (advance 1 p))
            else Some (plain_step (advance 1 p) False (js '' '') word))"
  using assms by (simp add: nextToken_step_def Let_def js_def backslash_def charCode_less_def)

lemma nextToken_step_plain:
  assumes "\<not> charCode_less (peek (scanner p) 0) 32" and "peek (scanner p) 0 \<noteq> [backslash]"
  shows "nextToken_step dec p word = Some (plain_step p False (peek (scanner p) 0) word)"
  using assms by (simp add: nextToken_step_def Let_def)

lemma nextToken_step_backslash:
  assumes "peek (scanner p) 0 = [backslash]"
  shows "nextToken_step dec p word =
           (if str_includes (backslash # js ''{}'') (peek (scanner p) 1) then
              Some (plain_step (advance 1 p) True (peek (scanner (advance 1 p)) 0) word)
            else command_step dec (currentIndex (scanner p)) p word)"
  using assms by (simp add: nextToken_step_def Let_def charCode_less_def backslash_def)


lemma nextToken_step_progress:
  assumes wf: "follows (scanner p) (scanner p)" and data: "hasData (scanner p)"
    and step: "nextToken_step dec p word = Some st"
  shows "follows (scanner p) (scanner (step_parser st))
         \<and> (sc_index (scanner p) < sc_index (scanner (step_parser st))
              \<or> (word \<noteq> [] \<and> is_return st))"
proof -
  let ?letter0 = "peek (scanner p) 0"
  let ?q = "advance 1 p"
  have adv: "follows (scanner p) (scanner ?q)"
    using wf by (simp add: follows_advance)
  have adv_lt: "sc_index (scanner p) < sc_index (scanner ?q)"
    using data by (simp add: advance_strict)
  have after_q: "follows (scanner p) (scanner (step_parser (plain_step ?q e l word)))
                 \<and> sc_index (scanner p) < sc_index (scanner (step_parser (plain_step ?q e l word)))"
    for e l
  proof -
    have "follows (scanner ?q) (scanner ?q)"
      using adv by (simp add: follows_def)
    then have "follows (scanner ?q) (scanner (step_parser (plain_step ?q e l word)))"
      by (rule plain_step_follows)
    with adv adv_lt show ?thesis by (auto simp: follows_def)
  qed
  show ?thesis
  proof (cases "charCode_less ?letter0 32")
    case True
    from step nextToken_step_control [OF True, of dec word]
    consider "st = Return TABULATOR None ?q" | "st = Return NEW_PARAGRAPH None ?q"
      | "st = plain_step ?q False (js '' '') word"
      by (auto split: if_splits)
    then show ?thesis
    proof cases
      case 1 with adv adv_lt show ?thesis by simp
    next
      case 2 with adv adv_lt show ?thesis by simp
    next
      case 3 with after_q show ?thesis by simp
    qed
  next
    case plain: False
    show ?thesis
    proof (cases "?letter0 = [backslash]")
      case False
      from step nextToken_step_plain [OF plain False, of dec word]
      have st: "st = plain_step p False ?letter0 word" by simp
      show ?thesis
        unfolding st using plain_step_follows [OF wf] plain_step_strict [OF data] by blast
    next
      case bs: True
      show ?thesis
      proof (cases "str_includes (backslash # js ''{}'') (peek (scanner p) 1)")
        case True
        with step nextToken_step_backslash [OF bs, of dec word]
        have st: "st = plain_step ?q True (peek (scanner ?q) 0) word" by simp
        show ?thesis unfolding st using after_q by simp
      next
        case False
        with step nextToken_step_backslash [OF bs, of dec word]
        have cmd: "command_step dec (currentIndex (scanner p)) p word = Some st" by simp
        from command_step_follows [OF wf cmd] command_step_strict [OF wf data cmd]
        show ?thesis by blast
      qed
    qed
  qed
qed

lemma nextToken_step_none:
  assumes "nextToken_step dec p word = None"
  shows "sc_text (scanner p) ! sc_index (scanner p) = backslash
         \<and> Suc (sc_index (scanner p)) < length (sc_text (scanner p))
         \<and> sc_text (scanner p) ! Suc (sc_index (scanner p)) = ch CHR ''p''"
proof -
  have not_control: "\<not> charCode_less (peek (scanner p) 0) 32"
    using assms nextToken_step_control [of p dec word] by (auto split: if_splits)
  have bs: "peek (scanner p) 0 = [backslash]"
    using assms not_control nextToken_step_plain [of p dec word] by auto
  from assms nextToken_step_backslash [OF bs, of dec word]
  have cmd: "command_step dec (currentIndex (scanner p)) p word = None"
    by (auto split: if_splits)
  from command_step_none [OF cmd] have "fst (get (consume 1 (scanner p))) = js ''p''" .
  moreover have "nat (int i + 1) = Suc i" for i
    by arith
  ultimately show ?thesis
    using bs
    by (auto simp: get_def consume_def peek_def isEmpty_def js_def Let_def split: if_splits)
qed


lemma no_paragraph_command_nth:
  "no_paragraph_command t \<Longrightarrow> Suc i < length t \<Longrightarrow> t ! i = backslash \<Longrightarrow> t ! Suc i \<noteq> ch CHR ''p''"
proof (induction t arbitrary: i rule: no_paragraph_command.induct)
  case (1 a b r)
  then show ?case by (cases i) auto
qed simp_all

lemma nextToken_loop_returns:
  assumes "no_paragraph_command (sc_text (scanner p))" and "follows (scanner p) (scanner p)"
  shows "\<exists>tk f p'. nextToken_loop dec p word = Some (tk, f, p')
           \<and> follows (scanner p) (scanner p')
           \<and> (tk \<noteq> NONE \<and> word = [] \<longrightarrow> sc_index (scanner p) < sc_index (scanner p'))"
  using assms
proof (induction "length (sc_text (scanner p)) - sc_index (scanner p)"
         arbitrary: p word rule: less_induct)
  case less
  note unfold = nextToken_loop.simps [of dec p word]
  show ?case
  proof (cases "hasData (scanner p)")
    case False
    with unfold less.prems(2) show ?thesis by auto
  next
    case data: True
    have "nextToken_step dec p word \<noteq> None"
    proof
      assume "nextToken_step dec p word = None"
      from nextToken_step_none [OF this] no_paragraph_command_nth [OF less.prems(1)]
      show False by blast
    qed
    then obtain st where st: "nextToken_step dec p word = Some st" by blast
    from nextToken_step_progress [OF less.prems(2) data st]
    have fol: "follows (scanner p) (scanner (step_parser st))"
      and adv: "sc_index (scanner p) < sc_index (scanner (step_parser st))
                \<or> (word \<noteq> [] \<and> is_return st)"
      by blast+
    show ?thesis
    proof (cases st)
      case (Return t f p')
      with unfold data st fol adv show ?thesis by auto
    next
      case (Continue p1 w1)
      with fol adv have fol1: "follows (scanner p) (scanner p1)"
        and lt: "sc_index (scanner p) < sc_index (scanner p1)" by auto
      have smaller: "length (sc_text (scanner p1)) - sc_index (scanner p1)
                     < length (sc_text (scanner p)) - sc_index (scanner p)"
        using fol1 lt by (auto simp: follows_def)
      have np: "no_paragraph_command (sc_text (scanner p1))"
        using fol1 less.prems(1) by (simp add: follows_def)
      have wf1: "follows (scanner p1) (scanner p1)"
        using fol1 by (simp add: follows_def)
      from less.hyps [OF smaller np wf1, of w1]
      obtain tk f p' where r: "nextToken_loop dec p1 w1 = Some (tk, f, p')"
        and fol2: "follows (scanner p1) (scanner p')" by blast
      have "nextToken_loop dec p word = Some (tk, f, p')"
        using unfold data st Continue r by simp
      moreover have "follows (scanner p) (scanner p')"
        using fol1 fol2 by (rule follows_trans)
      moreover have "sc_index (scanner p) < sc_index (scanner p')"
        using lt fol2 by (simp add: follows_def)
      ultimately show ?thesis by blast
    qed
  qed
qed

lemma parse_loop_returns:
  assumes "no_paragraph_command (sc_text (scanner p))" and "follows (scanner p) (scanner p)"
  shows "\<exists>ts. parse_loop dec p yielded = Some ts"
  using assms
proof (induction "length (sc_text (scanner p)) - sc_index (scanner p)"
         arbitrary: p yielded rule: less_induct)
  case less
  note unfold = parse_loop.simps [of dec p yielded]
  from nextToken_loop_returns [OF less.prems, of dec "[]"]
  obtain tk f p' where r: "nextToken dec p = Some (tk, f, p')"
    and fol: "follows (scanner p) (scanner p')"
    and adv: "tk \<noteq> NONE \<longrightarrow> sc_index (scanner p) < sc_index (scanner p')"
    by (auto simp: nextToken_def)
  show ?case
  proof (cases "tk = NONE")
    case True
    with unfold r show ?thesis by simp
  next
    case False
    with adv have lt: "sc_index (scanner p) < sc_index (scanner p')" by simp
    have smaller: "length (sc_text (scanner p')) - sc_index (scanner p')
                   < length (sc_text (scanner p)) - sc_index (scanner p)"
      using fol lt by (auto simp: follows_def)
    have np: "no_paragraph_command (sc_text (scanner p'))"
      using fol less.prems(1) by (simp add: follows_def)
    have wf': "follows (scanner p') (scanner p')"
      using fol by (simp add: follows_def)
    from less.hyps [OF smaller np wf'] False unfold r show ?thesis by simp
  qed
qed

text \<open>
  Apart from the tab-stop loop, every loop of the parser consumes at least one character
  each time round. So on a text with no paragraph command the generator finishes: it
  yields a finite list of tokens, from any context.
\<close>

theorem parse_returns_without_paragraph_command:
  assumes "no_paragraph_command content"
  shows "\<exists>ts. parse dec content c = Some ts"
  unfolding parse_def
  by (rule parse_loop_returns) (use assms in \<open>simp_all add: new_MTextParser_def new_scanner_def follows_def\<close>)







subsection \<open>Sharing after \<open>copy()\<close>\<close>

text \<open>
  Claim C7 (the code departs from it). Take a new context, copy it, and push a tab stop
  on the copy's list: the original's list holds the tab stop too, since the spread of
  \<open>paragraph\<close> copies the reference to the array. Assigning the family of the copy's
  font face leaves the original as it was: the font face itself is a new object.
\<close>

theorem copy_shares_tab_stops:
  "copy_then_push (TabNumber (Num 4))
     = Some (Some new_MTextContext,
             Some (new_MTextContext\<lparr>ctx_paragraph :=
                     (ctx_paragraph new_MTextContext)\<lparr>tab_stops := [TabNumber (Num 4)]\<rparr>\<rparr>))
   \<and> copy_then_assign_family (js ''Arial'')
     = Some (Some new_MTextContext, Some new_MTextContext)"
  by code_simp

end
